theory Spec2Isabelle
  imports
    Main
    "HOL-Library.Sublist"
    "HOL-Library.Multiset"
    "HOL-Library.Char_ord"
    "HOL-Library.List_Lexorder"
begin

section \<open>Strings and paths of the Go standard library\<close>

text \<open>
  Go strings are byte sequences; \<open>string\<close> (a list of 8-bit characters) is the same
  thing. The comparison \<open><\<close> of Go strings is bytewise lexicographic, which is the
  order the imported theories give to \<open>char list\<close>.
\<close>

text \<open>\<open>strings.Join(elems, sep)\<close>.\<close>

fun strings_Join :: "string list \<Rightarrow> string \<Rightarrow> string" where
  "strings_Join [] sep = []"
| "strings_Join [x] sep = x"
| "strings_Join (x # y # ys) sep = x @ sep @ strings_Join (y # ys) sep"

text \<open>\<open>strings.Split(s, "/")\<close>: the elements between the slashes, empty ones included.\<close>

fun split_slash :: "string \<Rightarrow> string list" where
  "split_slash [] = [[]]"
| "split_slash (c # cs) =
     (if c = CHR ''/'' then [] # split_slash cs
      else (case split_slash cs of
              [] \<Rightarrow> [[c]]
            | x # xs \<Rightarrow> (c # x) # xs))"

text \<open>
  \<open>path.Base\<close>: the empty path gives \<open>"."\<close>; trailing slashes are stripped; what follows
  the last slash is returned; a path of slashes only gives \<open>"/"\<close>.
\<close>

definition strip_trailing_slashes :: "string \<Rightarrow> string" where
  "strip_trailing_slashes p = rev (dropWhile (\<lambda>c. c = CHR ''/'') (rev p))"

definition after_last_slash :: "string \<Rightarrow> string" where
  "after_last_slash p = rev (takeWhile (\<lambda>c. c \<noteq> CHR ''/'') (rev p))"

definition path_Base :: "string \<Rightarrow> string" where
  "path_Base p =
     (if p = [] then ''.''
      else (let q = after_last_slash (strip_trailing_slashes p)
            in if q = [] then ''/'' else q))"

text \<open>
  \<open>filepath.Clean\<close> on a Unix system, element by element: empty elements and \<open>.\<close> are
  dropped, \<open>..\<close> removes the element before it (at the start of a rooted path it is
  dropped, at the start of a relative path it is kept), and the empty result is \<open>"."\<close>.
  \<open>out\<close> holds the elements written so far, last one first.
\<close>

fun clean_elems :: "bool \<Rightarrow> string list \<Rightarrow> string list \<Rightarrow> string list" where
  "clean_elems rooted out [] = rev out"
| "clean_elems rooted out (e # es) =
     (if e = [] \<or> e = ''.'' then clean_elems rooted out es
      else if e = ''..'' then
        (case out of
           [] \<Rightarrow> if rooted then clean_elems rooted [] es else clean_elems rooted [e] es
         | t # ts \<Rightarrow>
             if t = ''..'' then clean_elems rooted (e # out) es
             else clean_elems rooted ts es)
      else clean_elems rooted (e # out) es)"

definition filepath_Clean :: "string \<Rightarrow> string" where
  "filepath_Clean p =
     (if p = [] then ''.''
      else (let rooted = (hd p = CHR ''/'');
                body = strings_Join (clean_elems rooted [] (split_slash p)) ''/''
            in if rooted then CHR ''/'' # body
               else if body = [] then ''.'' else body))"

text \<open>
  \<open>filepath.Join\<close>: the elements from the first non-empty one on are joined with
  slashes and cleaned; when every element is empty the result is the empty string.
\<close>

definition filepath_Join :: "string list \<Rightarrow> string" where
  "filepath_Join elem =
     (case dropWhile (\<lambda>e. e = []) elem of
        [] \<Rightarrow> []
      | e # es \<Rightarrow> filepath_Clean (strings_Join (e # es) ''/''))"

text \<open>\<open>filepath.FromSlash\<close> is the identity where the separator is the slash.\<close>

definition filepath_FromSlash :: "string \<Rightarrow> string" where
  "filepath_FromSlash p = p"

text \<open>\<open>filepath.Dir\<close>: all but the last element of the path, cleaned.\<close>

definition filepath_Dir :: "string \<Rightarrow> string" where
  "filepath_Dir p = filepath_Clean (rev (dropWhile (\<lambda>c. c \<noteq> CHR ''/'') (rev p)))"

section \<open>Errors\<close>

text \<open>
  The calls a program makes to the operating system, the network and the archive
  library. They name the failed call in an error and are the entries of the trace the
  world keeps.
\<close>

datatype call =
    Mkdir string
  | RemoveAll string
  | Rename string string
  | Symlink string string
  | Chmod string nat
  | OpenRead string
  | Create string
  | WriteTo string
  | HttpGet string
  | Unarchive string string

text \<open>
  Go's \<open>error\<close> values. \<open>Errorf\<close> carries the text of a \<open>fmt.Errorf\<close> whose verbs are
  \<open>%s\<close> and \<open>%v\<close> only. \<open>ChecksumMismatch targetFile wanted got\<close> is the error of
  \<open>validateChecksum\<close>, whose text quotes the file name with \<open>%q\<close> and then gives the
  wanted and the computed checksum. The other constructors are errors of the libraries
  the code calls: \<open>net/url\<close> (\<open>UrlError\<close> with the text that could not be parsed
  and the error inside, \<open>EscapeError\<close> with the escape that is not valid), the
  operating system, \<open>net/http\<close>, the archiver, and \<open>LibError\<close> with the message of
  any other library error.
\<close>

datatype error =
    Errorf string
  | ChecksumMismatch string string string
  | UrlError string error
  | EscapeError string
  | OsError call
  | HttpError string
  | ArchiveError string
  | LibError string

section \<open>jsonschema.go\<close>

text \<open>
  The libraries \<open>validateConfig\<close> calls, and the embedded schema text (the file
  \<open>bindown.schema.json\<close> is not part of the sources), are parameters. A library error is
  its message; a validation error of \<open>ValidateBytes\<close> is the text its \<open>Error()\<close> method
  returns.
\<close>

record 'schema validator =
  jsonSchemaText :: string
  yaml_YAMLToJSON :: "string \<Rightarrow> string + string"
  json_Unmarshal :: "string \<Rightarrow> string + 'schema"
  ValidateBytes :: "'schema \<Rightarrow> string \<Rightarrow> string + string list"

definition newline :: string where
  "newline = [CHR 0x0A]"

text \<open>
  \<open>sort.Slice\<close> with the comparison of the messages leaves the messages in ascending
  order; equal messages are equal strings, so the sorted slice is \<open>sort\<close> of the list.
\<close>

definition validateConfig :: "'schema validator \<Rightarrow> string \<Rightarrow> error option" where
  "validateConfig V cfg =
     (case yaml_YAMLToJSON V cfg of
        Inl err \<Rightarrow> Some (Errorf ''config is not valid yaml (or json)'')
      | Inr cfgJSON \<Rightarrow>
          (case json_Unmarshal V (jsonSchemaText V) of
             Inl err \<Rightarrow> Some (LibError err)
           | Inr schema \<Rightarrow>
               (case ValidateBytes V schema cfgJSON of
                  Inl err \<Rightarrow>
                    Some (Errorf (''unexpected error running jsonSchema.ValidateBytes: '' @ err))
                | Inr validationErrs \<Rightarrow>
                    if length validationErrs = 0 then None
                    else (let msgs = sort validationErrs
                          in Some (Errorf (''invalid config:'' @ newline
                                            @ strings_Join msgs newline))))))"

section \<open>The world outside the program\<close>

text \<open>
  The part of Go's \<open>url.URL\<close> that the program reads after \<open>url.Parse\<close>, and the part
  of an \<open>http.Response\<close> that \<open>downloadFile\<close> uses: the status code, the bytes of the
  body that could be read, and the error that ended the reading early, if any.
\<close>

record url_URL =
  Scheme :: string
  Opaque :: string
  Host :: string
  Path :: string
  RawQuery :: string
  Fragment :: string

record response =
  StatusCode :: int
  Body :: string
  BodyError :: "error option"

text \<open>
  The file system is a store from path strings to nodes: a regular file with its content
  and permission bits, a symbolic link with its target, or a directory. A file is
  identified with the path string that names it; the paths the program builds come out of
  \<open>filepath.Join\<close> and are clean. The world also keeps the trace of the calls made to
  the operating system, the network and the archive library, in order: reading a file
  leaves no entry, every other call does, whether it succeeds or not.
  Text written with \<open>log.Printf\<close> is not part of the world.
\<close>

datatype node = File string nat | Link string | Dir

record world =
  files :: "string \<Rightarrow> node option"
  trace :: "call list"

text \<open>
  What the program cannot decide is a parameter: what \<open>url.Parse\<close> makes of the
  authority of a URL (the host that is left when the user information is taken off, or
  the error of an authority that is not valid), what the network answers to a GET, the SHA-256 of a byte string in hexadecimal, whether the
  archiver recognizes a format by the file name, what an archive contains (the entries
  it writes, relative to the destination, and the error that stopped it, if any), and
  whether the operating system refuses a call in a world for a reason the store does not
  show (permissions, a missing parent directory, a full disk).
\<close>

record env =
  url_parseAuthority :: "string \<Rightarrow> error + string"
  http_Get :: "string \<Rightarrow> error + response"
  sha256_hex :: "string \<Rightarrow> string"
  recognized :: "string \<Rightarrow> bool"
  archive_entries :: "string \<Rightarrow> (string \<times> node) list \<times> error option"
  os_refuses :: "call \<Rightarrow> world \<Rightarrow> bool"

section \<open>net/url\<close>

text \<open>
  \<open>url.Parse\<close> of the Go standard library, as far as it decides the path of the URL.
  A URL with an ASCII control byte is refused.
\<close>

definition stringContainsCTLByte :: "string \<Rightarrow> bool" where
  "stringContainsCTLByte s = (\<exists>b \<in> set s. b < CHR '' '' \<or> b = CHR 0x7F)"

text \<open>
  \<open>getScheme\<close>: a scheme is a letter followed by letters, digits, \<open>+\<close>, \<open>-\<close> and \<open>.\<close> up
  to a colon; a colon in front is an error; any other byte, or the end, means that
  there is no scheme and the whole text is the rest. \<open>seen\<close> is what was read so far.
\<close>

definition is_letter :: "char \<Rightarrow> bool" where
  "is_letter c = ((CHR ''a'' \<le> c \<and> c \<le> CHR ''z'') \<or> (CHR ''A'' \<le> c \<and> c \<le> CHR ''Z''))"

definition is_scheme_char :: "char \<Rightarrow> bool" where
  "is_scheme_char c =
     (CHR ''0'' \<le> c \<and> c \<le> CHR ''9'' \<or> c = CHR ''+'' \<or> c = CHR ''-'' \<or> c = CHR ''.'')"

fun getScheme_from :: "string \<Rightarrow> string \<Rightarrow> string \<Rightarrow> error + string \<times> string" where
  "getScheme_from rawURL seen [] = Inr ([], rawURL)"
| "getScheme_from rawURL seen (c # cs) =
     (if is_letter c then getScheme_from rawURL (seen @ [c]) cs
      else if is_scheme_char c then
        (if seen = [] then Inr ([], rawURL) else getScheme_from rawURL (seen @ [c]) cs)
      else if c = CHR '':'' then
        (if seen = [] then Inl (LibError ''missing protocol scheme'')
         else Inr (seen, cs))
      else Inr ([], rawURL))"

definition getScheme :: "string \<Rightarrow> error + string \<times> string" where
  "getScheme rawURL = getScheme_from rawURL [] rawURL"

text \<open>
  \<open>strings.ToLower\<close> on the ASCII letters, which are all a scheme has.
\<close>

definition strings_ToLower :: "string \<Rightarrow> string" where
  "strings_ToLower s =
     map (\<lambda>c. if CHR ''A'' \<le> c \<and> c \<le> CHR ''Z'' then char_of (of_char c + (32::nat)) else c) s"

text \<open>
  \<open>strings.Cut(s, sep)\<close>: what is before the first separator and what is after it (the
  empty string when there is no separator).
\<close>

definition cut_before :: "char \<Rightarrow> string \<Rightarrow> string" where
  "cut_before sep s = takeWhile (\<lambda>c. c \<noteq> sep) s"

definition cut_after :: "char \<Rightarrow> string \<Rightarrow> string" where
  "cut_after sep s = drop 1 (dropWhile (\<lambda>c. c \<noteq> sep) s)"

text \<open>
  \<open>unescape\<close> for a path or a fragment: \<open>%\<close> and two hexadecimal digits are one
  byte; a \<open>%\<close> without them is an error.
\<close>

definition ishex :: "char \<Rightarrow> bool" where
  "ishex c = (CHR ''0'' \<le> c \<and> c \<le> CHR ''9'' \<or> CHR ''a'' \<le> c \<and> c \<le> CHR ''f''
              \<or> CHR ''A'' \<le> c \<and> c \<le> CHR ''F'')"

definition unhex :: "char \<Rightarrow> nat" where
  "unhex c =
     (if CHR ''0'' \<le> c \<and> c \<le> CHR ''9'' then of_char c - of_char CHR ''0''
      else if CHR ''a'' \<le> c \<and> c \<le> CHR ''f'' then of_char c - of_char CHR ''a'' + 10
      else if CHR ''A'' \<le> c \<and> c \<le> CHR ''F'' then of_char c - of_char CHR ''A'' + 10
      else 0)"

fun unescape :: "string \<Rightarrow> error + string" where
  "unescape [] = Inr []"
| "unescape (c # cs) =
     (if c = CHR ''%'' then
        (case cs of
           h1 # h2 # rest \<Rightarrow>
             if ishex h1 \<and> ishex h2 then
               (case unescape rest of
                  Inl err \<Rightarrow> Inl err
                | Inr s \<Rightarrow> Inr (char_of (unhex h1 * 16 + unhex h2) # s))
             else Inl (EscapeError (take 3 (c # cs)))
         | _ \<Rightarrow> Inl (EscapeError (take 3 (c # cs))))
      else (case unescape cs of
              Inl err \<Rightarrow> Inl err
            | Inr s \<Rightarrow> Inr (c # s)))"

text \<open>
  The query is cut off the rest at the first \<open>?\<close>; a single \<open>?\<close> at the very end is
  dropped (\<open>ForceQuery\<close>).
\<close>

definition split_query :: "string \<Rightarrow> string \<times> string" where
  "split_query rest =
     (if suffix ''?'' rest \<and> count_list rest CHR ''?'' = 1 then (butlast rest, [])
      else (cut_before CHR ''?'' rest, cut_after CHR ''?'' rest))"

text \<open>
  What \<open>parse\<close> does with the scheme, the rest and the query: a rest without a
  leading slash is opaque when there is a scheme, and must not have a colon in its first
  segment when there is none; after \<open>//\<close> comes the authority, up to the next slash; what
  is left is unescaped and is the path.
\<close>

definition parse_rest :: "env \<Rightarrow> string \<Rightarrow> string \<Rightarrow> string \<Rightarrow> error + url_URL" where
  "parse_rest E scheme rest query =
     (if \<not> prefix ''/'' rest \<and> scheme \<noteq> [] then
        Inr \<lparr>Scheme = scheme, Opaque = rest, Host = [], Path = [], RawQuery = query,
             Fragment = []\<rparr>
      else if \<not> prefix ''/'' rest \<and> CHR '':'' \<in> set (cut_before CHR ''/'' rest) then
        Inl (LibError ''first path segment in URL cannot contain colon'')
      else if (scheme \<noteq> [] \<or> \<not> prefix ''///'' rest) \<and> prefix ''//'' rest then
        (let authority = cut_before CHR ''/'' (drop 2 rest);
             rest' = dropWhile (\<lambda>c. c \<noteq> CHR ''/'') (drop 2 rest)
         in (case url_parseAuthority E authority of
               Inl err \<Rightarrow> Inl err
             | Inr host \<Rightarrow>
                 (case unescape rest' of
                    Inl err \<Rightarrow> Inl err
                  | Inr path \<Rightarrow>
                      Inr \<lparr>Scheme = scheme, Opaque = [], Host = host, Path = path,
                           RawQuery = query, Fragment = []\<rparr>)))
      else (case unescape rest of
              Inl err \<Rightarrow> Inl err
            | Inr path \<Rightarrow>
                Inr \<lparr>Scheme = scheme, Opaque = [], Host = [], Path = path,
                     RawQuery = query, Fragment = []\<rparr>))"

text \<open>
  \<open>parse\<close> after its two early returns, which are a control byte in the URL and the
  URL \<open>*\<close>.
\<close>

definition parse_from_scheme :: "env \<Rightarrow> string \<Rightarrow> error + url_URL" where
  "parse_from_scheme E rawURL =
     (case getScheme rawURL of
        Inl err \<Rightarrow> Inl err
      | Inr (scheme, rest) \<Rightarrow>
          (case split_query rest of
             (rest', query) \<Rightarrow>
               parse_rest E (strings_ToLower scheme) rest' query))"

definition url_parse :: "env \<Rightarrow> string \<Rightarrow> error + url_URL" where
  "url_parse E rawURL =
     (if stringContainsCTLByte rawURL
      then Inl (LibError ''net/url: invalid control character in URL'')
      else if rawURL = ''*''
      then Inr \<lparr>Scheme = [], Opaque = [], Host = [], Path = ''*'', RawQuery = [], Fragment = []\<rparr>
      else parse_from_scheme E rawURL)"

text \<open>
  \<open>url.Parse\<close>: the fragment is cut off at the first \<open>#\<close>, the rest is parsed, and
  the fragment is unescaped. An error comes back with the text that was being parsed.
\<close>

definition url_Parse :: "env \<Rightarrow> string \<Rightarrow> error + url_URL" where
  "url_Parse E rawURL =
     (let u = cut_before CHR ''#'' rawURL; frag = cut_after CHR ''#'' rawURL
      in (case url_parse E u of
            Inl err \<Rightarrow> Inl (UrlError u err)
          | Inr url \<Rightarrow>
              if frag = [] then Inr url
              else (case unescape frag of
                      Inl err \<Rightarrow> Inl (UrlError rawURL err)
                    | Inr f \<Rightarrow> Inr (url\<lparr>Fragment := f\<rparr>))))"

text \<open>
  A URL without its query and its fragment: the text before the first \<open>?\<close> or \<open>#\<close>.
\<close>

definition without_query_and_fragment :: "string \<Rightarrow> string" where
  "without_query_and_fragment rawURL =
     takeWhile (\<lambda>c. c \<noteq> CHR ''?'' \<and> c \<noteq> CHR ''#'') rawURL"

text \<open>The path of a parsed URL, when the parse succeeded.\<close>

definition path_of :: "error + url_URL \<Rightarrow> string option" where
  "path_of r = (case r of Inl err \<Rightarrow> None | Inr u \<Rightarrow> Some (Path u))"

section \<open>The operating system and the archiver\<close>

definition called :: "call \<Rightarrow> world \<Rightarrow> world" where
  "called c w = w\<lparr>trace := trace w @ [c]\<rparr>"

text \<open>\<open>within d p\<close>: the path \<open>p\<close> is \<open>d\<close> itself or lies below it.\<close>

definition within :: "string \<Rightarrow> string \<Rightarrow> bool" where
  "within d p = (p = d \<or> prefix (d @ ''/'') p)"

text \<open>
  Symbolic links in the last element of a path are followed by the calls that open,
  stat or chmod a path, at most 40 links deep; a relative target is taken from the
  directory of the link. \<open>None\<close> is the error of a chain that is too long.
  A link in a directory above the last element is not resolved: a path below a linked
  directory is a name of its own in the store. What is proved about files that stay as
  they are is therefore stated for paths with no link at or above them (\<open>anchored\<close>,
  further down).
\<close>

fun follow :: "nat \<Rightarrow> (string \<Rightarrow> node option) \<Rightarrow> string \<Rightarrow> string option" where
  "follow 0 fs p = None"
| "follow (Suc n) fs p =
     (case fs p of
        Some (Link t) \<Rightarrow>
          follow n fs (if t \<noteq> [] \<and> hd t = CHR ''/'' then t
                       else filepath_Join [filepath_Dir p, t])
      | _ \<Rightarrow> Some p)"

definition referent :: "world \<Rightarrow> string \<Rightarrow> string option" where
  "referent w p = follow 40 (files w) p"

text \<open>\<open>os.Stat\<close>: the node a path leads to, \<open>None\<close> when there is none.\<close>

definition os_Stat :: "world \<Rightarrow> string \<Rightarrow> node option" where
  "os_Stat w p = (case referent w p of None \<Rightarrow> None | Some q \<Rightarrow> files w q)"

text \<open>Reading a whole file (\<open>os.Open\<close> and reading to the end).\<close>

definition os_ReadFile :: "env \<Rightarrow> world \<Rightarrow> string \<Rightarrow> error + string" where
  "os_ReadFile E w p =
     (if os_refuses E (OpenRead p) w then Inl (OsError (OpenRead p))
      else (case os_Stat w p of
              Some (File c m) \<Rightarrow> Inr c
            | _ \<Rightarrow> Inl (OsError (OpenRead p))))"

text \<open>\<open>os.RemoveAll\<close>: removes the path and everything below it; a missing path is no error.\<close>

definition os_RemoveAll :: "env \<Rightarrow> string \<Rightarrow> world \<Rightarrow> error option \<times> world" where
  "os_RemoveAll E p w =
     (let w1 = called (RemoveAll p) w
      in if os_refuses E (RemoveAll p) w then (Some (OsError (RemoveAll p)), w1)
         else (None, w1\<lparr>files := (\<lambda>q. if within p q then None else files w q)\<rparr>))"

text \<open>
  \<open>os.Rename\<close>: the node at the old path, with what lies below it, replaces what is at
  the new path. The old path must exist.
\<close>

definition os_Rename :: "env \<Rightarrow> string \<Rightarrow> string \<Rightarrow> world \<Rightarrow> error option \<times> world" where
  "os_Rename E oldpath newpath w =
     (let w1 = called (Rename oldpath newpath) w
      in if os_refuses E (Rename oldpath newpath) w \<or> files w oldpath = None
         then (Some (OsError (Rename oldpath newpath)), w1)
         else (None, w1\<lparr>files :=
                 (\<lambda>q. if within newpath q then files w (oldpath @ drop (length newpath) q)
                      else if within oldpath q then None
                      else files w q)\<rparr>))"

text \<open>\<open>os.Symlink\<close>: fails when something is at the new name already.\<close>

definition os_Symlink :: "env \<Rightarrow> string \<Rightarrow> string \<Rightarrow> world \<Rightarrow> error option \<times> world" where
  "os_Symlink E oldname newname w =
     (let w1 = called (Symlink oldname newname) w
      in if os_refuses E (Symlink oldname newname) w \<or> files w newname \<noteq> None
         then (Some (OsError (Symlink oldname newname)), w1)
         else (None, w1\<lparr>files := (files w)(newname \<mapsto> Link oldname)\<rparr>))"

text \<open>
  \<open>os.Chmod\<close>: sets the permission bits of the file the path leads to. The bits of a
  directory are not kept in the store.
\<close>

definition os_Chmod :: "env \<Rightarrow> string \<Rightarrow> nat \<Rightarrow> world \<Rightarrow> error option \<times> world" where
  "os_Chmod E p mode w =
     (let w1 = called (Chmod p mode) w
      in if os_refuses E (Chmod p mode) w then (Some (OsError (Chmod p mode)), w1)
         else (case referent w p of
                 None \<Rightarrow> (Some (OsError (Chmod p mode)), w1)
               | Some q \<Rightarrow>
                   (case files w q of
                      Some (File c m) \<Rightarrow> (None, w1\<lparr>files := (files w)(q \<mapsto> File c mode)\<rparr>)
                    | Some Dir \<Rightarrow> (None, w1)
                    | _ \<Rightarrow> (Some (OsError (Chmod p mode)), w1))))"

text \<open>\<open>os.Mkdir\<close>: fails when something is at the path already.\<close>

definition os_Mkdir :: "env \<Rightarrow> string \<Rightarrow> world \<Rightarrow> error option \<times> world" where
  "os_Mkdir E p w =
     (let w1 = called (Mkdir p) w
      in if os_refuses E (Mkdir p) w \<or> files w p \<noteq> None
         then (Some (OsError (Mkdir p)), w1)
         else (None, w1\<lparr>files := (files w)(p \<mapsto> Dir)\<rparr>))"

text \<open>
  \<open>os.MkdirAll\<close>, as the standard library writes it: a directory that is there is
  success, anything else there is an error; otherwise the parent (the path without its
  trailing slashes and its last element, when that leaves more than the root) is made
  first, then the directory itself, and a failure of that \<open>Mkdir\<close> is forgiven when the
  directory is there after all.
\<close>

definition mkdir_parent :: "string \<Rightarrow> string option" where
  "mkdir_parent path =
     (let i = length (strip_trailing_slashes path);
          j = i - length (after_last_slash (take i path))
      in if j > 1 then Some (take (j - 1) path) else None)"

function os_MkdirAll :: "env \<Rightarrow> string \<Rightarrow> world \<Rightarrow> error option \<times> world" where
  "os_MkdirAll E path w =
     (case os_Stat w path of
        Some Dir \<Rightarrow> (None, w)
      | Some other \<Rightarrow> (Some (OsError (Mkdir path)), w)
      | None \<Rightarrow>
          (case (case mkdir_parent path of
                   None \<Rightarrow> (None, w)
                 | Some parent \<Rightarrow> os_MkdirAll E parent w) of
             (Some err, w1) \<Rightarrow> (Some err, w1)
           | (None, w1) \<Rightarrow>
               (case os_Mkdir E path w1 of
                  (Some err, w2) \<Rightarrow>
                    if files w2 path = Some Dir then (None, w2) else (Some err, w2)
                | (None, w2) \<Rightarrow> (None, w2))))"
  by pat_completeness auto
termination
proof (relation "measure (\<lambda>(E, path, w). length path)")
  show "wf (measure (\<lambda>(E, path, w). length path))"
    by simp
next
  fix E :: env and path :: string and w :: world and parent :: string
  assume "mkdir_parent path = Some parent"
  moreover have "length (strip_trailing_slashes path) \<le> length path"
    using length_dropWhile_le [of "\<lambda>c. c = CHR ''/''" "rev path"]
    by (simp add: strip_trailing_slashes_def)
  ultimately have "length parent < length path"
    by (auto simp: mkdir_parent_def Let_def split: if_splits)
  then show "((E, parent, w), (E, path, w)) \<in> measure (\<lambda>(E, path, w). length path)"
    by simp
qed

declare os_MkdirAll.simps [simp del]

text \<open>
  \<open>os.Create\<close>: opens the file the path leads to for writing, empty: a new file with
  mode 0666, or the old file truncated. The result names the file that was opened.
\<close>

definition os_Create :: "env \<Rightarrow> string \<Rightarrow> world \<Rightarrow> (error + string) \<times> world" where
  "os_Create E p w =
     (let w1 = called (Create p) w
      in if os_refuses E (Create p) w then (Inl (OsError (Create p)), w1)
         else (case referent w p of
                 None \<Rightarrow> (Inl (OsError (Create p)), w1)
               | Some q \<Rightarrow>
                   (case files w q of
                      None \<Rightarrow> (Inr q, w1\<lparr>files := (files w)(q \<mapsto> File [] 438)\<rparr>)
                    | Some (File c m) \<Rightarrow> (Inr q, w1\<lparr>files := (files w)(q \<mapsto> File [] m)\<rparr>)
                    | Some other \<Rightarrow> (Inl (OsError (Create p)), w1))))"

text \<open>Writing bytes to an open file, which \<open>os.Create\<close> left empty.\<close>

definition os_Write :: "env \<Rightarrow> string \<Rightarrow> string \<Rightarrow> world \<Rightarrow> error option \<times> world" where
  "os_Write E out bytes w =
     (let w1 = called (WriteTo out) w
      in if os_refuses E (WriteTo out) w then (Some (OsError (WriteTo out)), w1)
         else (case files w out of
                 Some (File c m) \<Rightarrow> (None, w1\<lparr>files := (files w)(out \<mapsto> File (c @ bytes) m)\<rparr>)
               | _ \<Rightarrow> (Some (OsError (WriteTo out)), w1)))"

text \<open>
  \<open>io.Copy(out, resp.Body)\<close>: the bytes of the body that could be read are written; the
  error is the one of the write, or the one that ended the body.
\<close>

definition io_Copy :: "env \<Rightarrow> string \<Rightarrow> response \<Rightarrow> world \<Rightarrow> error option \<times> world" where
  "io_Copy E out resp w =
     (case os_Write E out (Body resp) w of
        (Some err, w1) \<Rightarrow> (Some err, w1)
      | (None, w1) \<Rightarrow> (BodyError resp, w1))"

text \<open>
  The archiver library. \<open>ByExtension\<close> looks the format up by the file name.
  \<open>Unarchive\<close> does the same lookup on its source first and fails when the format is not
  recognized; then it writes the entries of the archive below the destination.
\<close>

definition archiver_ByExtension :: "env \<Rightarrow> string \<Rightarrow> error option" where
  "archiver_ByExtension E filename =
     (if recognized E filename then None else Some (ArchiveError filename))"

definition write_entries :: "string \<Rightarrow> (string \<times> node) list \<Rightarrow> world \<Rightarrow> world" where
  "write_entries dest entries w =
     foldl (\<lambda>w1 (rel, n). w1\<lparr>files := (files w1)(filepath_Join [dest, rel] \<mapsto> n)\<rparr>) w entries"

definition archiver_Unarchive :: "env \<Rightarrow> string \<Rightarrow> string \<Rightarrow> world \<Rightarrow> error option \<times> world" where
  "archiver_Unarchive E source destination w =
     (let w1 = called (Unarchive source destination) w
      in (case archiver_ByExtension E source of
            Some err \<Rightarrow> (Some err, w1)
          | None \<Rightarrow>
              if os_refuses E (Unarchive source destination) w
              then (Some (ArchiveError source), w1)
              else (case os_ReadFile E w source of
                      Inl err \<Rightarrow> (Some err, w1)
                    | Inr bytes \<Rightarrow>
                        (case archive_entries E bytes of
                           (entries, err) \<Rightarrow> (err, write_entries destination entries w1)))))"

section \<open>The helpers of the package\<close>

text \<open>
  Modelled from the spec: \<open>fileExists\<close> is not in the sources. The spec's short-circuit
  asks whether "the target binary already exists at the destination": something is at
  the path.
\<close>

definition fileExists :: "world \<Rightarrow> string \<Rightarrow> bool" where
  "fileExists w p = (files w p \<noteq> None)"

text \<open>
  Modelled from the spec: \<open>rm\<close> is not in the sources. The spec has the pipeline "delete
  the downloaded file" and "remove any existing file at the destination"; a missing
  path is no error, and a deletion can fail.
\<close>

definition rm :: "env \<Rightarrow> string \<Rightarrow> world \<Rightarrow> error option \<times> world" where
  "rm E p w = os_RemoveAll E p w"

text \<open>
  Modelled from the spec: \<open>copyFile\<close> is not in the sources. The spec has the extract
  stage "copy the raw file into the extract directory under its original name".
\<close>

definition copyFile :: "env \<Rightarrow> string \<Rightarrow> string \<Rightarrow> world \<Rightarrow> error option \<times> world" where
  "copyFile E src dst w =
     (case os_ReadFile E w src of
        Inl err \<Rightarrow> (Some err, w)
      | Inr bytes \<Rightarrow>
          (case os_Create E dst w of
             (Inl err, w1) \<Rightarrow> (Some err, w1)
           | (Inr out, w1) \<Rightarrow> os_Write E out bytes w1))"

text \<open>
  Modelled from the spec: \<open>fileChecksum\<close> is not in the sources. The spec has the verify
  stage "recompute the downloaded file's checksum" (SHA-256, in hexadecimal); the test
  of the helper has it fail on a file that does not exist.
\<close>

definition fileChecksum :: "env \<Rightarrow> world \<Rightarrow> string \<Rightarrow> error + string" where
  "fileChecksum E w filename =
     (case os_ReadFile E w filename of
        Inl err \<Rightarrow> Inl err
      | Inr bytes \<Rightarrow> Inr (sha256_hex E bytes))"

text \<open>
  Modelled from the spec: \<open>fileExistsWithChecksum\<close> is not in the sources. The spec has
  the download stage ask for "a cached, checksum-valid download"; the test of the helper
  has it answer false, without an error, for a file that does not exist and for a file
  with another checksum.
\<close>

definition fileExistsWithChecksum :: "env \<Rightarrow> world \<Rightarrow> string \<Rightarrow> string \<Rightarrow> error + bool" where
  "fileExistsWithChecksum E w filename checksum =
     (if \<not> fileExists w filename then Inr False
      else (case fileChecksum E w filename of
              Inl err \<Rightarrow> Inl err
            | Inr got \<Rightarrow> Inr (checksum = got)))"

section \<open>downloader.go\<close>

record Downloader =
  URL :: string
  Checksum :: string
  LinkSource :: string
  BinName :: string
  MoveFrom :: string
  OS :: string
  Arch :: string

definition downloadableName :: "env \<Rightarrow> Downloader \<Rightarrow> error + string" where
  "downloadableName E d =
     (case url_Parse E (URL d) of
        Inl err \<Rightarrow> Inl err
      | Inr u \<Rightarrow> Inr (path_Base (Path u)))"

definition downloadablePath :: "env \<Rightarrow> Downloader \<Rightarrow> string \<Rightarrow> error + string" where
  "downloadablePath E d targetDir =
     (case downloadableName E d of
        Inl err \<Rightarrow> Inl err
      | Inr name \<Rightarrow> Inr (filepath_Join [targetDir, name]))"

definition binPath :: "Downloader \<Rightarrow> string \<Rightarrow> string" where
  "binPath d targetDir = filepath_Join [targetDir, BinName d]"

text \<open>The mode \<open>0755\<close> is 493.\<close>

definition chmod :: "env \<Rightarrow> Downloader \<Rightarrow> string \<Rightarrow> world \<Rightarrow> error option \<times> world" where
  "chmod E d targetDir w = os_Chmod E (binPath d targetDir) 493 w"

definition move :: "env \<Rightarrow> Downloader \<Rightarrow> string \<Rightarrow> string \<Rightarrow> world \<Rightarrow> error option \<times> world" where
  "move E d targetDir extractDir w =
     (if MoveFrom d = [] then (None, w)
      else (case rm E (binPath d targetDir) w of
              (Some err, w1) \<Rightarrow> (Some err, w1)
            | (None, w1) \<Rightarrow>
                (let from = filepath_Join [extractDir, filepath_FromSlash (MoveFrom d)];
                     to = binPath d targetDir
                 in os_Rename E from to w1)))"

definition link :: "env \<Rightarrow> Downloader \<Rightarrow> string \<Rightarrow> string \<Rightarrow> world \<Rightarrow> error option \<times> world" where
  "link E d targetDir extractDir w =
     (if LinkSource d = [] then (None, w)
      else (case (if fileExists w (binPath d targetDir) then rm E (binPath d targetDir) w
                  else (None, w)) of
              (Some err, w1) \<Rightarrow> (Some err, w1)
            | (None, w1) \<Rightarrow>
                (let src = filepath_Join [extractDir, filepath_FromSlash (LinkSource d)]
                 in os_Symlink E src (binPath d targetDir) w1)))"

text \<open>
  \<open>extract\<close>: when \<open>ByExtension\<close> fails, \<open>err\<close> becomes the result of \<open>copyFile\<close>; a
  remaining error is returned; then \<open>Unarchive\<close> is called, on either path.
\<close>

definition "extract" :: "env \<Rightarrow> Downloader \<Rightarrow> string \<Rightarrow> string \<Rightarrow> world \<Rightarrow> error option \<times> world" where
  "extract E d downloadDir extractDir w =
     (case downloadableName E d of
        Inl err \<Rightarrow> (Some err, w)
      | Inr dlName \<Rightarrow>
          (case os_MkdirAll E extractDir w of
             (Some err, w1) \<Rightarrow> (Some err, w1)
           | (None, w1) \<Rightarrow>
               (let tarPath = filepath_Join [downloadDir, dlName]
                in (case (case archiver_ByExtension E dlName of
                            Some err \<Rightarrow> copyFile E tarPath (filepath_Join [extractDir, dlName]) w1
                          | None \<Rightarrow> (None, w1)) of
                      (Some err, w2) \<Rightarrow> (Some err, w2)
                    | (None, w2) \<Rightarrow>
                        (case archiver_Unarchive E tarPath extractDir w2 of
                           (Some err, w3) \<Rightarrow> (Some err, w3)
                         | (None, w3) \<Rightarrow> rm E tarPath w3)))))"

definition downloadFile :: "env \<Rightarrow> string \<Rightarrow> string \<Rightarrow> world \<Rightarrow> error option \<times> world" where
  "downloadFile E targetPath url w =
     (let w1 = called (HttpGet url) w
      in (case http_Get E url of
            Inl err \<Rightarrow> (Some err, w1)
          | Inr resp \<Rightarrow>
              if StatusCode resp \<ge> 300
              then (Some (Errorf (''failed downloading '' @ url)), w1)
              else (case os_Create E targetPath w1 of
                      (Inl err, w2) \<Rightarrow> (Some err, w2)
                    | (Inr out, w2) \<Rightarrow> io_Copy E out resp w2)))"

definition download :: "env \<Rightarrow> Downloader \<Rightarrow> string \<Rightarrow> world \<Rightarrow> error option \<times> world" where
  "download E d downloadDir w =
     (case downloadablePath E d downloadDir of
        Inl err \<Rightarrow> (Some err, w)
      | Inr dlPath \<Rightarrow>
          (case os_MkdirAll E downloadDir w of
             (Some err, w1) \<Rightarrow> (Some err, w1)
           | (None, w1) \<Rightarrow>
               (case fileExistsWithChecksum E w1 dlPath (Checksum d) of
                  Inl err \<Rightarrow> (Some err, w1)
                | Inr ok \<Rightarrow>
                    if ok then (None, w1)
                    else downloadFile E dlPath (URL d) w1)))"

text \<open>
  \<open>validateChecksum\<close>: on a mismatch the deferred function removes the file; when the
  removal fails that is logged only, and the mismatch is the error returned either way.
\<close>

definition validateChecksum :: "env \<Rightarrow> Downloader \<Rightarrow> string \<Rightarrow> world \<Rightarrow> error option \<times> world" where
  "validateChecksum E d targetDir w =
     (case downloadablePath E d targetDir of
        Inl err \<Rightarrow> (Some err, w)
      | Inr targetFile \<Rightarrow>
          (case fileChecksum E w targetFile of
             Inl err \<Rightarrow> (Some err, w)
           | Inr result \<Rightarrow>
               if Checksum d \<noteq> result
               then (case rm E targetFile w of
                       (delErr, w1) \<Rightarrow>
                         (Some (ChecksumMismatch targetFile (Checksum d) result), w1))
               else (None, w)))"

record InstallOpts =
  TargetDir :: string
  DownloadDir :: string
  ExtractDir :: string
  Force :: bool

definition Install :: "env \<Rightarrow> Downloader \<Rightarrow> InstallOpts \<Rightarrow> world \<Rightarrow> error option \<times> world" where
  "Install E d opts0 w =
     (let opts1 = (if DownloadDir opts0 = []
                   then opts0\<lparr>DownloadDir :=
                          filepath_Join [TargetDir opts0, ''.bindownloader'', ''downloads'', Checksum d]\<rparr>
                   else opts0);
          opts = (if ExtractDir opts1 = []
                  then opts1\<lparr>ExtractDir :=
                         filepath_Join [TargetDir opts1, ''.bindownloader'', ''extracts'', Checksum d]\<rparr>
                  else opts1)
      in if fileExists w (binPath d (TargetDir opts)) \<and> \<not> Force opts then (None, w)
         else (case download E d (DownloadDir opts) w of
                 (Some err, w1) \<Rightarrow> (Some err, w1)
               | (None, w1) \<Rightarrow>
                   (case validateChecksum E d (DownloadDir opts) w1 of
                      (Some err, w2) \<Rightarrow> (Some err, w2)
                    | (None, w2) \<Rightarrow>
                        (case extract E d (DownloadDir opts) (ExtractDir opts) w2 of
                           (Some err, w3) \<Rightarrow> (Some err, w3)
                         | (None, w3) \<Rightarrow>
                             (case link E d (TargetDir opts) (ExtractDir opts) w3 of
                                (Some err, w4) \<Rightarrow> (Some err, w4)
                              | (None, w4) \<Rightarrow>
                                  (case move E d (TargetDir opts) (ExtractDir opts) w4 of
                                     (Some err, w5) \<Rightarrow> (Some err, w5)
                                   | (None, w5) \<Rightarrow>
                                       (case chmod E d (TargetDir opts) w5 of
                                          (Some err, w6) \<Rightarrow> (Some err, w6)
                                        | (None, w6) \<Rightarrow> (None, w6))))))))"

text \<open>
  The directories \<open>Install\<close> works with after it has filled in the defaults.
\<close>

definition effectiveDownloadDir :: "Downloader \<Rightarrow> InstallOpts \<Rightarrow> string" where
  "effectiveDownloadDir d opts =
     (if DownloadDir opts = []
      then filepath_Join [TargetDir opts, ''.bindownloader'', ''downloads'', Checksum d]
      else DownloadDir opts)"

definition effectiveExtractDir :: "Downloader \<Rightarrow> InstallOpts \<Rightarrow> string" where
  "effectiveExtractDir d opts =
     (if ExtractDir opts = []
      then filepath_Join [TargetDir opts, ''.bindownloader'', ''extracts'', Checksum d]
      else ExtractDir opts)"

section \<open>Concrete inputs\<close>

text \<open>
  An environment to run the definitions in: a server that answers every GET with the
  same archive, a digest that knows the bytes of that archive, an archiver that
  recognizes \<open>.tar.gz\<close> and finds one file in every archive, and an operating system
  that refuses nothing. The authorities of the URLs used are host names.
\<close>

definition fooChecksum :: string where
  "fooChecksum = ''f7fa712caea646575c920af17de3462fe9d08d7fe062b9a17010117d5fa4ed88''"

definition example_env :: env where
  "example_env =
     \<lparr>url_parseAuthority = (\<lambda>authority. Inr authority),
      http_Get = (\<lambda>u. Inr \<lparr>StatusCode = 200, Body = ''foo archive'', BodyError = None\<rparr>),
      sha256_hex = (\<lambda>bytes. if bytes = ''foo archive'' then fooChecksum else ''e3b0c442''),
      recognized = (\<lambda>name. suffix ''.tar.gz'' name),
      archive_entries = (\<lambda>bytes. ([(''bin/foo.txt'', File ''hello'' 420)], None)),
      os_refuses = (\<lambda>c w. False)\<rparr>"

definition example_downloader :: Downloader where
  "example_downloader =
     \<lparr>URL = ''http://example.com/foo/foo.tar.gz?foo=bar'', Checksum = fooChecksum,
      LinkSource = [], BinName = ''foo.txt'', MoveFrom = ''bin/foo.txt'',
      OS = ''darwin'', Arch = ''amd64''\<rparr>"

definition example_opts :: InstallOpts where
  "example_opts = \<lparr>TargetDir = ''/t'', DownloadDir = [], ExtractDir = [], Force = False\<rparr>"

text \<open>A world in which the binary is installed already.\<close>

definition installed_world :: world where
  "installed_world = \<lparr>files = [''/t/foo.txt'' \<mapsto> File ''hello'' 493], trace = []\<rparr>"

text \<open>A schema validator that finds two faults in every document but \<open>{}\<close>.\<close>

definition example_validator :: "string validator" where
  "example_validator =
     \<lparr>jsonSchemaText = ''{}'',
      yaml_YAMLToJSON = (\<lambda>cfg. Inr cfg),
      json_Unmarshal = (\<lambda>text. Inr text),
      ValidateBytes = (\<lambda>schema cfg.
         if cfg = ''{}'' then Inr []
         else Inr [''/url: type should be string'', ''/bin: value is required''])\<rparr>"

text \<open>A world with nothing in it.\<close>

definition empty_world :: world where
  "empty_world = \<lparr>files = Map.empty, trace = []\<rparr>"

text \<open>A world in which the archive has been downloaded to \<open>/dl\<close>.\<close>

definition download_world :: world where
  "download_world =
     \<lparr>files = [''/dl'' \<mapsto> Dir, ''/dl/foo.tar.gz'' \<mapsto> File ''foo archive'' 420], trace = []\<rparr>"

text \<open>A world in which a download that is no archive, \<open>foo\<close>, is in \<open>/dl\<close>.\<close>

definition raw_world :: world where
  "raw_world =
     \<lparr>files = [''/dl'' \<mapsto> Dir, ''/dl/foo'' \<mapsto> File ''foo archive'' 420], trace = []\<rparr>"

text \<open>A Downloader that names both a link source and a file to move.\<close>

definition both_downloader :: Downloader where
  "both_downloader = example_downloader\<lparr>LinkSource := ''bin/foo.txt''\<rparr>"







text \<open>A Downloader whose URL has no path.\<close>

definition pathless_downloader :: Downloader where
  "pathless_downloader = example_downloader\<lparr>URL := ''http://example.com''\<rparr>"

text \<open>A Downloader whose URL does not parse: it starts with a colon.\<close>

definition schemeless_downloader :: Downloader where
  "schemeless_downloader = example_downloader\<lparr>URL := '':foo.tar.gz''\<rparr>"

text \<open>A world in which a directory is where the download should be.\<close>

definition blocked_world :: world where
  "blocked_world =
     \<lparr>files = [''/dl'' \<mapsto> Dir, ''/dl/foo.tar.gz'' \<mapsto> Dir], trace = []\<rparr>"

text \<open>A world in which other bytes than the archive are at the download path.\<close>

definition stale_world :: world where
  "stale_world =
     \<lparr>files = [''/dl'' \<mapsto> Dir, ''/dl/foo.tar.gz'' \<mapsto> File ''old bytes'' 420], trace = []\<rparr>"



section \<open>What a failed install leaves\<close>



text \<open>\<open>no_link_at q w\<close>: the path \<open>q\<close> is not a symbolic link in \<open>w\<close>.\<close>

definition no_link_at :: "string \<Rightarrow> world \<Rightarrow> bool" where
  "no_link_at q w \<longleftrightarrow> (\<forall>t. files w q \<noteq> Some (Link t))"


section \<open>Properties of validateConfig\<close>

lemma strings_Join_sublist:
  "m \<in> set ms \<Longrightarrow> sublist m (strings_Join ms sep)"
proof (induction ms sep rule: strings_Join.induct)
  case (1 sep)
  then show ?case by simp
next
  case (2 x sep)
  then show ?case by simp
next
  case (3 x y ys sep)
  show ?case
  proof (cases "m = x")
    case True
    then show ?thesis by (simp add: sublist_append_rightI)
  next
    case False
    with 3 have "sublist m (strings_Join (y # ys) sep)" by simp
    then have "sublist m ((x @ sep) @ strings_Join (y # ys) sep)"
      unfolding sublist_def by (metis append.assoc)
    then show ?thesis by simp
  qed
qed

text \<open>
  C8. \<open>validateConfig\<close> returns nil exactly when the document was converted, the schema
  was read and \<open>ValidateBytes\<close> returned an empty list of messages. When the list is not
  empty the error is \<open>invalid config:\<close> followed by the messages in ascending order, one
  per line: the same messages with the same multiplicities, each of them a part of the
  error text.
\<close>

theorem validateConfig_reports_every_message:
  "(validateConfig V cfg = None \<longleftrightarrow>
      (\<exists>cfgJSON schema. yaml_YAMLToJSON V cfg = Inr cfgJSON
         \<and> json_Unmarshal V (jsonSchemaText V) = Inr schema
         \<and> ValidateBytes V schema cfgJSON = Inr []))
   \<and> (\<forall>cfgJSON schema msgs.
         yaml_YAMLToJSON V cfg = Inr cfgJSON
         \<and> json_Unmarshal V (jsonSchemaText V) = Inr schema
         \<and> ValidateBytes V schema cfgJSON = Inr msgs \<and> msgs \<noteq> []
         \<longrightarrow> validateConfig V cfg
               = Some (Errorf (''invalid config:'' @ newline @ strings_Join (sort msgs) newline))
             \<and> mset (sort msgs) = mset msgs
             \<and> (\<forall>m \<in> set msgs. sublist m (strings_Join (sort msgs) newline)))"
proof (intro conjI allI impI ballI)
  show "validateConfig V cfg = None \<longleftrightarrow>
      (\<exists>cfgJSON schema. yaml_YAMLToJSON V cfg = Inr cfgJSON
         \<and> json_Unmarshal V (jsonSchemaText V) = Inr schema
         \<and> ValidateBytes V schema cfgJSON = Inr [])"
    by (auto simp: validateConfig_def Let_def split: sum.splits)
next
  fix cfgJSON schema msgs
  assume ran: "yaml_YAMLToJSON V cfg = Inr cfgJSON
         \<and> json_Unmarshal V (jsonSchemaText V) = Inr schema
         \<and> ValidateBytes V schema cfgJSON = Inr msgs \<and> msgs \<noteq> []"
  then show "validateConfig V cfg
      = Some (Errorf (''invalid config:'' @ newline @ strings_Join (sort msgs) newline))"
    by (simp add: validateConfig_def Let_def)
  show "mset (sort msgs) = mset msgs"
    by simp
  fix m assume "m \<in> set msgs"
  then have "m \<in> set (sort msgs)" by simp
  then show "sublist m (strings_Join (sort msgs) newline)"
    by (rule strings_Join_sublist)
qed

theorem validateConfig_reports_every_message_witness:
  "validateConfig example_validator ''{}'' = None
   \<and> validateConfig example_validator ''url: 1''
     = Some (Errorf (''invalid config:'' @ newline @ ''/bin: value is required''
                      @ newline @ ''/url: type should be string''))"
proof -
  have ran: "yaml_YAMLToJSON example_validator ''url: 1'' = Inr ''url: 1''
      \<and> json_Unmarshal example_validator (jsonSchemaText example_validator) = Inr ''{}''
      \<and> ValidateBytes example_validator ''{}'' ''url: 1''
          = Inr [''/url: type should be string'', ''/bin: value is required'']
      \<and> [''/url: type should be string'', ''/bin: value is required''] \<noteq> []"
    by (simp add: example_validator_def)
  have empty: "\<exists>cfgJSON schema. yaml_YAMLToJSON example_validator ''{}'' = Inr cfgJSON
      \<and> json_Unmarshal example_validator (jsonSchemaText example_validator) = Inr schema
      \<and> ValidateBytes example_validator schema cfgJSON = Inr []"
    by (simp add: example_validator_def)
  have sorted: "sort [''/url: type should be string'', ''/bin: value is required'']
      = [''/bin: value is required'', ''/url: type should be string'']"
    by code_simp
  have none: "validateConfig example_validator ''{}'' = None"
    using validateConfig_reports_every_message [of example_validator "''{}''", THEN conjunct1] empty
    by (rule iffD2)
  have "validateConfig example_validator ''url: 1''
      = Some (Errorf (''invalid config:'' @ newline
            @ strings_Join (sort [''/url: type should be string'', ''/bin: value is required'']) newline))"
    using validateConfig_reports_every_message
      [of example_validator "''url: 1''", THEN conjunct2, rule_format, OF ran]
    by (rule conjunct1)
  then have some: "validateConfig example_validator ''url: 1''
     = Some (Errorf (''invalid config:'' @ newline @ ''/bin: value is required''
                      @ newline @ ''/url: type should be string''))"
    unfolding sorted by simp
  from none some show ?thesis by (rule conjI)
qed

section \<open>Properties of the names and paths\<close>

lemma question_mark_class [simp]:
  "\<not> is_letter CHR ''?''" "\<not> is_scheme_char CHR ''?''"
  by (simp_all add: is_letter_def is_scheme_char_def less_eq_char_def)

lemma getScheme_from_append:
  assumes "CHR ''?'' \<notin> set rem" and "sfx = [] \<or> hd sfx = CHR ''?''"
  shows "getScheme_from (raw @ sfx) seen (rem @ sfx)
         = (case getScheme_from raw seen rem of
              Inl err \<Rightarrow> Inl err
            | Inr (s, r) \<Rightarrow> Inr (s, r @ sfx))"
  using assms
proof (induction rem arbitrary: seen)
  case Nil
  then show ?case by (cases sfx) auto
next
  case (Cons c rem)
  then show ?case by auto
qed

lemma getScheme_from_rest:
  "getScheme_from raw seen rem = Inr (s, r) \<Longrightarrow> r = raw \<or> suffix r rem"
  by (induction rem arbitrary: seen) (auto split: if_splits simp: suffix_Cons)

lemma getScheme_rest_subset:
  "getScheme raw = Inr (s, r) \<Longrightarrow> set r \<subseteq> set raw"
  unfolding getScheme_def
  by (drule getScheme_from_rest) (auto dest: set_mono_suffix)

lemma split_query_append:
  assumes "CHR ''?'' \<notin> set r" and "sfx = [] \<or> hd sfx = CHR ''?''"
  shows "fst (split_query (r @ sfx)) = r"
proof (cases sfx)
  case Nil
  with assms show ?thesis
    by (auto simp: split_query_def cut_before_def suffix_def)
next
  case (Cons c q)
  with assms have c: "c = CHR ''?''" by simp
  show ?thesis
  proof (cases "suffix ''?'' (r @ sfx) \<and> count_list (r @ sfx) CHR ''?'' = 1")
    case True
    with Cons c assms(1) have "count_list q CHR ''?'' = 0"
      by (simp add: count_list_0_iff)
    then have noq: "CHR ''?'' \<notin> set q" by (simp add: count_list_0_iff)
    from True Cons c have "q = [] \<or> last q = CHR ''?''"
      by (auto simp: suffix_def) (metis last.simps last_appendR list.distinct(1) snoc_eq_iff_butlast)
    with noq have "q = []" by (metis last_in_set)
    with True Cons c show ?thesis
      by (simp add: split_query_def butlast_append)
  next
    case False
    from assms(1) have "takeWhile (\<lambda>x. x \<noteq> CHR ''?'') (r @ CHR ''?'' # q) = r"
      by (induction r) auto
    then have tw: "cut_before CHR ''?'' (r @ sfx) = r"
      by (simp add: cut_before_def Cons c)
    have "split_query (r @ sfx)
        = (cut_before CHR ''?'' (r @ sfx), cut_after CHR ''?'' (r @ sfx))"
      unfolding split_query_def using False by (rule if_not_P)
    with tw show ?thesis by simp
  qed
qed

lemma parse_rest_query:
  "path_of (parse_rest E scheme rest q) = path_of (parse_rest E scheme rest q')"
  by (auto simp: parse_rest_def path_of_def Let_def split: sum.splits)

lemma parse_from_scheme_append:
  assumes "CHR ''?'' \<notin> set b" and "sfx = [] \<or> hd sfx = CHR ''?''"
  shows "path_of (parse_from_scheme E (b @ sfx)) = path_of (parse_from_scheme E b)"
proof (cases "getScheme b")
  case (Inl err)
  with getScheme_from_append [OF assms, of b "[]"] show ?thesis
    by (cases err) (auto simp: parse_from_scheme_def getScheme_def path_of_def)
next
  case (Inr sr)
  obtain s r where sr: "sr = (s, r)" by (cases sr)
  with Inr getScheme_rest_subset [of b s r] assms(1) have noq: "CHR ''?'' \<notin> set r"
    by auto
  from Inr sr getScheme_from_append [OF assms, of b "[]"]
  have full: "getScheme (b @ sfx) = Inr (s, r @ sfx)"
    by (simp add: getScheme_def)
  have a: "fst (split_query (r @ sfx)) = r"
    by (rule split_query_append [OF noq assms(2)])
  have b: "fst (split_query r) = r"
    using split_query_append [OF noq, of "[]"] by simp
  show ?thesis
    using Inr sr full a b parse_rest_query [of E "strings_ToLower s" r]
    by (auto simp: parse_from_scheme_def split: prod.splits)
qed

lemma path_of_Inr: "path_of r = Some p \<longleftrightarrow> (\<exists>u. r = Inr u \<and> Path u = p)"
  by (auto simp: path_of_def split: sum.splits)

lemma parse_from_scheme_star:
  "path_of (parse_from_scheme E ''*'') = Some ''*''"
  by (simp add: parse_from_scheme_def getScheme_def is_letter_def is_scheme_char_def
      less_eq_char_def split_query_def cut_before_def cut_after_def parse_rest_def
      strings_ToLower_def path_of_def)

lemma url_parse_without_query:
  assumes noq: "CHR ''?'' \<notin> set b" and sfx: "sfx = [] \<or> hd sfx = CHR ''?''"
    and ok: "url_parse E (b @ sfx) = Inr v"
  shows "\<exists>v0. url_parse E b = Inr v0 \<and> Path v0 = Path v"
proof -
  from ok have clean: "\<not> stringContainsCTLByte (b @ sfx)"
    by (auto simp: url_parse_def split: if_splits)
  then have cleanb: "\<not> stringContainsCTLByte b"
    by (auto simp: stringContainsCTLByte_def)
  show ?thesis
  proof (cases "b @ sfx = ''*''")
    case True
    with sfx have "sfx = []"
      by (cases sfx) (auto simp: append_eq_Cons_conv)
    with ok show ?thesis by simp
  next
    case False
    with ok clean have "parse_from_scheme E (b @ sfx) = Inr v"
      by (simp add: url_parse_def)
    then have "path_of (parse_from_scheme E (b @ sfx)) = Some (Path v)"
      by (simp add: path_of_def)
    with parse_from_scheme_append [OF noq sfx, of E]
    have p: "path_of (parse_from_scheme E b) = Some (Path v)"
      by simp
    show ?thesis
    proof (cases "b = ''*''")
      case True
      with p parse_from_scheme_star [of E] have "Path v = ''*''" by simp
      with True cleanb show ?thesis by (simp add: url_parse_def)
    next
      case False
      with cleanb have "url_parse E b = parse_from_scheme E b"
        by (simp add: url_parse_def)
      with p show ?thesis by (simp add: path_of_Inr)
    qed
  qed
qed

lemma cut_before_no_sep: "sep \<notin> set s \<Longrightarrow> cut_before sep s = s"
  by (induction s) (auto simp: cut_before_def)

lemma cut_after_no_sep: "sep \<notin> set s \<Longrightarrow> cut_after sep s = []"
  by (induction s) (auto simp: cut_after_def)

lemma without_query_and_fragment_cut:
  "without_query_and_fragment raw = cut_before CHR ''?'' (cut_before CHR ''#'' raw)"
  unfolding without_query_and_fragment_def cut_before_def
  by (induction raw) auto

lemma without_query_and_fragment_free:
  "CHR ''?'' \<notin> set (without_query_and_fragment raw)"
  "CHR ''#'' \<notin> set (without_query_and_fragment raw)"
  unfolding without_query_and_fragment_def
  by (auto dest: set_takeWhileD)

lemma url_Parse_without_query_and_fragment:
  assumes "url_Parse E raw = Inr u"
  shows "\<exists>u0. url_Parse E (without_query_and_fragment raw) = Inr u0 \<and> Path u0 = Path u"
proof -
  let ?u1 = "cut_before CHR ''#'' raw"
  let ?b = "without_query_and_fragment raw"
  let ?sfx = "dropWhile (\<lambda>c. c \<noteq> CHR ''?'') ?u1"
  from assms obtain v where v: "url_parse E ?u1 = Inr v" "Path v = Path u"
    by (auto simp: url_Parse_def Let_def split: sum.splits if_splits)
  have split: "?u1 = ?b @ ?sfx"
    by (simp add: without_query_and_fragment_cut cut_before_def)
  have sfx: "?sfx = [] \<or> hd ?sfx = CHR ''?''"
    using hd_dropWhile [of "\<lambda>c. c \<noteq> CHR ''?''" ?u1] by auto
  from v(1) split have "url_parse E (?b @ ?sfx) = Inr v" by simp
  from url_parse_without_query [OF without_query_and_fragment_free(1) sfx this] v(2)
  obtain v0 where v0: "url_parse E ?b = Inr v0" "Path v0 = Path u" by auto
  from v0(1) have "url_Parse E ?b = Inr v0"
    by (simp add: url_Parse_def Let_def cut_before_no_sep cut_after_no_sep
        without_query_and_fragment_free)
  with v0(2) show ?thesis by simp
qed

lemma path_Base_empty: "path_Base [] = ''.''"
  by (simp add: path_Base_def)

lemma path_Base_slashes:
  assumes "p \<noteq> []" and "set p \<subseteq> {CHR ''/''}"
  shows "path_Base p = ''/''"
proof -
  from assms(2) have "strip_trailing_slashes p = []"
    unfolding strip_trailing_slashes_def by (auto simp: dropWhile_eq_Nil_conv)
  with assms(1) show ?thesis
    by (simp add: path_Base_def after_last_slash_def)
qed

lemma path_Base_trailing_slash:
  assumes "p \<noteq> []"
  shows "path_Base (p @ ''/'') = path_Base p"
  using assms
  by (simp add: path_Base_def strip_trailing_slashes_def)

lemma strip_trailing_slashes_last_element:
  assumes "n \<noteq> []" and "CHR ''/'' \<notin> set n"
  shows "strip_trailing_slashes (xs @ n) = xs @ n"
proof -
  from assms obtain c cs where "n = cs @ [c]" and "c \<noteq> CHR ''/''"
    by (cases n rule: rev_cases) auto
  then show ?thesis
    by (simp add: strip_trailing_slashes_def)
qed

lemma after_last_slash_last_element:
  assumes "CHR ''/'' \<notin> set n"
  shows "after_last_slash (xs @ CHR ''/'' # n) = n" and "after_last_slash n = n"
proof -
  from assms have "takeWhile (\<lambda>c. c \<noteq> CHR ''/'') (rev n @ CHR ''/'' # rev xs) = rev n"
    by (induction n rule: rev_induct) auto
  then show "after_last_slash (xs @ CHR ''/'' # n) = n"
    by (simp add: after_last_slash_def)
  from assms have whole: "takeWhile (\<lambda>c. c \<noteq> CHR ''/'') (rev n) = rev n"
    by auto
  show "after_last_slash n = n"
    unfolding after_last_slash_def whole by simp
qed

lemma path_Base_last_element:
  assumes "n \<noteq> []" and "CHR ''/'' \<notin> set n"
  shows "path_Base (dir @ CHR ''/'' # n) = n" and "path_Base n = n"
proof -
  from strip_trailing_slashes_last_element [OF assms, of "dir @ ''/''"]
  have "strip_trailing_slashes (dir @ CHR ''/'' # n) = dir @ CHR ''/'' # n"
    by simp
  with assms after_last_slash_last_element(1) [OF assms(2), of dir]
  show "path_Base (dir @ CHR ''/'' # n) = n"
    by (simp add: path_Base_def)
  from strip_trailing_slashes_last_element [OF assms, of "[]"]
  have "strip_trailing_slashes n = n"
    by simp
  with assms after_last_slash_last_element(2) [OF assms(2)]
  show "path_Base n = n"
    by (simp add: path_Base_def)
qed

text \<open>
  C9. When the URL parses, the name of the downloaded file is the base name of the
  path of the URL, and the download path is that name joined to the download
  directory. The URL without its query and fragment parses too, to the same path, so
  the name and the download path are those of the URL without query and fragment, and
  two URLs that differ in query and fragment only have the same name and download path.
  The base name is \<open>.\<close> for an empty path and \<open>/\<close> for a path of slashes; a trailing
  slash does not count; otherwise it is the last element of the path.
\<close>

theorem downloadableName_ignores_query_and_fragment:
  assumes parsed: "url_Parse E (URL d) = Inr u"
  shows "downloadableName E d = Inr (path_Base (Path u))
     \<and> downloadablePath E d dir = Inr (filepath_Join [dir, path_Base (Path u)])
     \<and> (\<exists>u0. url_Parse E (without_query_and_fragment (URL d)) = Inr u0 \<and> Path u0 = Path u)
     \<and> downloadableName E (d\<lparr>URL := without_query_and_fragment (URL d)\<rparr>)
         = downloadableName E d
     \<and> downloadablePath E (d\<lparr>URL := without_query_and_fragment (URL d)\<rparr>) dir
         = downloadablePath E d dir
     \<and> (\<forall>d' u'. url_Parse E (URL d') = Inr u'
           \<and> without_query_and_fragment (URL d') = without_query_and_fragment (URL d)
           \<longrightarrow> downloadableName E d' = downloadableName E d
             \<and> downloadablePath E d' dir = downloadablePath E d dir)
     \<and> (Path u = [] \<longrightarrow> downloadableName E d = Inr ''.'')
     \<and> (Path u \<noteq> [] \<and> set (Path u) \<subseteq> {CHR ''/''} \<longrightarrow> downloadableName E d = Inr ''/'')
     \<and> (\<forall>p. p \<noteq> [] \<and> Path u = p @ ''/'' \<longrightarrow> path_Base (Path u) = path_Base p)
     \<and> (\<forall>dir' n. n \<noteq> [] \<and> CHR ''/'' \<notin> set n \<and> (Path u = n \<or> Path u = dir' @ ''/'' @ n)
           \<longrightarrow> downloadableName E d = Inr n)"
proof -
  from parsed have name: "downloadableName E d = Inr (path_Base (Path u))"
    by (simp add: downloadableName_def)
  then have path: "downloadablePath E d dir = Inr (filepath_Join [dir, path_Base (Path u)])"
    by (simp add: downloadablePath_def)
  from url_Parse_without_query_and_fragment [OF parsed]
  obtain u0 where u0: "url_Parse E (without_query_and_fragment (URL d)) = Inr u0"
    "Path u0 = Path u"
    by blast
  then have name0: "downloadableName E (d\<lparr>URL := without_query_and_fragment (URL d)\<rparr>)
      = downloadableName E d"
    using name by (simp add: downloadableName_def)
  then have path0: "downloadablePath E (d\<lparr>URL := without_query_and_fragment (URL d)\<rparr>) dir
      = downloadablePath E d dir"
    by (simp add: downloadablePath_def)
  have same: "downloadableName E d' = downloadableName E d
      \<and> downloadablePath E d' dir = downloadablePath E d dir"
    if "url_Parse E (URL d') = Inr u'"
      and "without_query_and_fragment (URL d') = without_query_and_fragment (URL d)"
    for d' u'
  proof -
    from url_Parse_without_query_and_fragment [OF that(1)] that(2) u0
    have "Path u' = Path u" by auto
    with that(1) name have "downloadableName E d' = downloadableName E d"
      by (simp add: downloadableName_def)
    then show ?thesis by (simp add: downloadablePath_def)
  qed
  from name u0 name0 path0 path same show ?thesis
    by (auto simp: path_Base_empty path_Base_slashes path_Base_trailing_slash
        path_Base_last_element)
qed

theorem downloadableName_ignores_query_and_fragment_witness:
  "url_Parse example_env ''http://example.com/foo/foo.tar.gz?foo=bar''
     = Inr \<lparr>Scheme = ''http'', Opaque = [], Host = ''example.com'',
            Path = ''/foo/foo.tar.gz'', RawQuery = ''foo=bar'', Fragment = []\<rparr>
   \<and> downloadableName example_env example_downloader = Inr ''foo.tar.gz''
   \<and> downloadablePath example_env example_downloader ''/dl'' = Inr ''/dl/foo.tar.gz''
   \<and> downloadableName example_env
        (example_downloader\<lparr>URL := ''http://example.com/foo/foo.tar.gz''\<rparr>)
      = Inr ''foo.tar.gz''
   \<and> downloadablePath example_env
        (example_downloader\<lparr>URL := ''http://example.com/foo/foo.tar.gz#top''\<rparr>) ''/dl''
      = Inr ''/dl/foo.tar.gz''"
proof -
  let ?u = "\<lparr>Scheme = ''http'', Opaque = [], Host = ''example.com'',
            Path = ''/foo/foo.tar.gz'', RawQuery = ''foo=bar'', Fragment = []\<rparr>"
  let ?d' = "example_downloader\<lparr>URL := ''http://example.com/foo/foo.tar.gz#top''\<rparr>"
  have url: "URL example_downloader = ''http://example.com/foo/foo.tar.gz?foo=bar''"
    by (simp add: example_downloader_def)
  have parsed: "url_Parse example_env (URL example_downloader) = Inr ?u"
    by code_simp
  have stripped: "without_query_and_fragment (URL example_downloader)
      = ''http://example.com/foo/foo.tar.gz''"
    by code_simp
  have parsed': "url_Parse example_env (URL ?d')
      = Inr \<lparr>Scheme = ''http'', Opaque = [], Host = ''example.com'',
            Path = ''/foo/foo.tar.gz'', RawQuery = [], Fragment = ''top''\<rparr>"
    by code_simp
  have stripped': "without_query_and_fragment (URL ?d')
      = without_query_and_fragment (URL example_downloader)"
    by code_simp
  have path: "Path ?u = ''/foo'' @ ''/'' @ ''foo.tar.gz''"
    by simp
  have joined: "filepath_Join [''/dl'', ''foo.tar.gz''] = ''/dl/foo.tar.gz''"
    by code_simp
  note r = downloadableName_ignores_query_and_fragment [OF parsed, of "''/dl''"]
  have slashfree: "''foo.tar.gz'' \<noteq> [] \<and> CHR ''/'' \<notin> set ''foo.tar.gz''"
    by simp
  have name: "downloadableName example_env example_downloader = Inr ''foo.tar.gz''"
    using r [THEN conjunct2, THEN conjunct2, THEN conjunct2, THEN conjunct2, THEN conjunct2,
      THEN conjunct2, THEN conjunct2, THEN conjunct2, THEN conjunct2, rule_format,
      of "''foo.tar.gz''" "''/foo''"] slashfree path
    by blast
  from r name have base: "path_Base (Path ?u) = ''foo.tar.gz''"
    by simp
  from r base joined
  have dl: "downloadablePath example_env example_downloader ''/dl'' = Inr ''/dl/foo.tar.gz''"
    by simp
  from r name stripped
  have name0: "downloadableName example_env
      (example_downloader\<lparr>URL := ''http://example.com/foo/foo.tar.gz''\<rparr>) = Inr ''foo.tar.gz''"
    by simp
  have "downloadablePath example_env ?d' ''/dl''
      = downloadablePath example_env example_downloader ''/dl''"
    using r [THEN conjunct2, THEN conjunct2, THEN conjunct2, THEN conjunct2, THEN conjunct2,
      THEN conjunct1, rule_format, of ?d'] parsed' stripped'
    by blast
  with dl parsed url name name0 show ?thesis
    by simp
qed

section \<open>The file system and the calls\<close>

lemma follow_not_link:
  "0 < n \<Longrightarrow> \<forall>t. fs p \<noteq> Some (Link t) \<Longrightarrow> follow n fs p = Some p"
  by (cases n) (auto split: option.splits node.splits)

lemma referent_not_link:
  "\<forall>t. files w p \<noteq> Some (Link t) \<Longrightarrow> referent w p = Some p"
  by (simp add: referent_def follow_not_link)

lemma os_Stat_not_link:
  "\<forall>t. files w p \<noteq> Some (Link t) \<Longrightarrow> os_Stat w p = files w p"
  by (simp add: os_Stat_def referent_not_link)

lemma os_ReadFile_File:
  "files w p = Some (File c m) \<Longrightarrow> \<not> os_refuses E (OpenRead p) w \<Longrightarrow> os_ReadFile E w p = Inr c"
  by (simp add: os_ReadFile_def os_Stat_not_link)

lemma os_ReadFile_None:
  "files w p = None \<Longrightarrow> os_ReadFile E w p = Inl (OsError (OpenRead p))"
  by (simp add: os_ReadFile_def os_Stat_not_link)

lemma fileChecksum_File:
  "files w p = Some (File c m) \<Longrightarrow> \<not> os_refuses E (OpenRead p) w \<Longrightarrow>
     fileChecksum E w p = Inr (sha256_hex E c)"
  by (simp add: fileChecksum_def os_ReadFile_File)

lemma within_self [simp]: "within p p"
  by (simp add: within_def)

lemma rm_result:
  "rm E p w =
     (if os_refuses E (RemoveAll p) w then (Some (OsError (RemoveAll p)), called (RemoveAll p) w)
      else (None, (called (RemoveAll p) w)\<lparr>files := (\<lambda>q. if within p q then None else files w q)\<rparr>))"
  by (simp add: rm_def os_RemoveAll_def Let_def)

lemma os_Mkdir_trace:
  "os_Mkdir E p w = (r, w') \<Longrightarrow> trace w' = trace w @ [Mkdir p]"
  by (auto simp: os_Mkdir_def Let_def called_def split: if_splits)


lemma os_MkdirAll_steps:
  assumes refl: "\<And>w. R w w"
    and trans: "\<And>a b c. R a b \<Longrightarrow> R b c \<Longrightarrow> R a c"
    and step: "\<And>q v r v'. os_Mkdir E q v = (r, v') \<Longrightarrow> R v v'"
    and run: "os_MkdirAll E p w = (r, w')"
  shows "R w w'"
  using assms
proof (induction E p w arbitrary: r w' rule: os_MkdirAll.induct)
  case (1 E path w)
  note refl1 = "1.prems"(1) and trans1 = "1.prems"(2) and step1 = "1.prems"(3)
    and run1 = "1.prems"(4)
  show ?case
  proof (cases "os_Stat w path")
    case (Some n)
    with run1 have "w' = w"
      by (cases n) (auto simp: os_MkdirAll.simps [of E path w])
    with refl1 show ?thesis by simp
  next
    case None
    obtain r1 w1 where up:
      "(case mkdir_parent path of None \<Rightarrow> (None, w)
        | Some parent \<Rightarrow> os_MkdirAll E parent w) = (r1, w1)"
      by (cases "case mkdir_parent path of None \<Rightarrow> (None, w)
        | Some parent \<Rightarrow> os_MkdirAll E parent w") auto
    have r1: "R w w1"
    proof (cases "mkdir_parent path")
      case None
      with up refl1 show ?thesis by auto
    next
      case (Some parent)
      with up have "os_MkdirAll E parent w = (r1, w1)" by simp
      from "1.IH" [OF \<open>os_Stat w path = None\<close> Some refl1 trans1 step1 this]
      show ?thesis .
    qed
    show ?thesis
    proof (cases r1)
      case (Some err)
      with run1 None up have "w' = w1"
        by (auto simp: os_MkdirAll.simps [of E path w])
      with r1 show ?thesis by simp
    next
      case None
      obtain r2 w2 where mk: "os_Mkdir E path w1 = (r2, w2)"
        by (cases "os_Mkdir E path w1") auto
      with run1 \<open>os_Stat w path = None\<close> up None have "w' = w2"
        by (auto simp: os_MkdirAll.simps [of E path w] split: option.splits if_splits)
      with step1 [OF mk] r1 trans1 show ?thesis by blast
    qed
  qed
qed

lemma os_MkdirAll_trace:
  assumes "os_MkdirAll E p w = (r, w')"
  shows "\<exists>cs. trace w' = trace w @ cs \<and> (\<forall>c \<in> set cs. \<exists>q. c = Mkdir q)"
proof (rule os_MkdirAll_steps [where R = "\<lambda>a b. \<exists>cs. trace b = trace a @ cs \<and> (\<forall>c \<in> set cs. \<exists>q. c = Mkdir q)", OF _ _ _ assms])
  show "\<And>w. \<exists>cs. trace w = trace w @ cs \<and> (\<forall>c\<in>set cs. \<exists>q. c = Mkdir q)"
    by simp
  show "\<And>q v r v'. os_Mkdir E q v = (r, v') \<Longrightarrow>
       \<exists>cs. trace v' = trace v @ cs \<and> (\<forall>c\<in>set cs. \<exists>q. c = Mkdir q)"
    by (auto dest: os_Mkdir_trace)
  fix a b c :: world
  assume "\<exists>cs. trace b = trace a @ cs \<and> (\<forall>c\<in>set cs. \<exists>q. c = Mkdir q)"
    and "\<exists>cs. trace c = trace b @ cs \<and> (\<forall>c\<in>set cs. \<exists>q. c = Mkdir q)"
  then obtain cs1 cs2 where "trace b = trace a @ cs1" "\<forall>c\<in>set cs1. \<exists>q. c = Mkdir q"
    "trace c = trace b @ cs2" "\<forall>c\<in>set cs2. \<exists>q. c = Mkdir q"
    by blast
  then have "trace c = trace a @ (cs1 @ cs2) \<and> (\<forall>c\<in>set (cs1 @ cs2). \<exists>q. c = Mkdir q)"
    by auto
  then show "\<exists>cs. trace c = trace a @ cs \<and> (\<forall>c\<in>set cs. \<exists>q. c = Mkdir q)"
    by blast
qed


lemma os_Create_trace:
  "trace (snd (os_Create E p w)) = trace w @ [Create p]"
  by (auto simp: os_Create_def Let_def called_def split: option.splits node.splits)

lemma os_Write_trace:
  "trace (snd (os_Write E out bytes w)) = trace w @ [WriteTo out]"
  by (auto simp: os_Write_def Let_def called_def split: option.splits node.splits)

lemma io_Copy_trace:
  "trace (snd (io_Copy E out resp w)) = trace w @ [WriteTo out]"
  using os_Write_trace [of E out "Body resp" w]
  by (auto simp: io_Copy_def split: prod.splits option.splits)

lemma downloadFile_trace:
  "\<exists>rest. trace (snd (downloadFile E p u w)) = trace w @ HttpGet u # rest"
proof -
  let ?w1 = "called (HttpGet u) w"
  have w1: "trace ?w1 = trace w @ [HttpGet u]"
    by (simp add: called_def)
  show ?thesis
  proof (cases "http_Get E u")
    case (Inl err)
    then show ?thesis by (simp add: downloadFile_def Let_def w1)
  next
    case (Inr resp)
    show ?thesis
    proof (cases "StatusCode resp \<ge> 300")
      case True
      with Inr show ?thesis by (simp add: downloadFile_def Let_def w1)
    next
      case False
      obtain r2 w2 where cr: "os_Create E p ?w1 = (r2, w2)"
        by (cases "os_Create E p ?w1") auto
      from os_Create_trace [of E p ?w1] cr w1
      have w2: "trace w2 = trace w @ [HttpGet u, Create p]" by simp
      show ?thesis
      proof (cases r2)
        case (Inl err)
        with Inr False cr w2 show ?thesis by (simp add: downloadFile_def Let_def)
      next
        case (Inr out)
        with \<open>http_Get E u = Inr resp\<close> False cr
        have "downloadFile E p u w = io_Copy E out resp w2"
          by (simp add: downloadFile_def Let_def)
        with io_Copy_trace [of E out resp w2] w2 show ?thesis by simp
      qed
    qed
  qed
qed

lemma example_env_refuses_nothing [simp]: "\<not> os_refuses example_env c w"
  by (simp add: example_env_def)

section \<open>Properties of validateChecksum\<close>

lemma validateChecksum_rejects:
  assumes "downloadablePath E d dir = Inr p"
    and "files w p = Some (File c m)"
    and "\<not> os_refuses E (OpenRead p) w"
    and "sha256_hex E c \<noteq> Checksum d"
  shows "fst (validateChecksum E d dir w)
           = Some (ChecksumMismatch p (Checksum d) (sha256_hex E c))
       \<and> (\<not> os_refuses E (RemoveAll p) w \<longrightarrow>
            \<not> fileExists (snd (validateChecksum E d dir w)) p)"
  using assms
  by (auto simp: validateChecksum_def fileChecksum_File rm_result fileExists_def called_def)

text \<open>
  C2. Let the downloaded file be a regular file that can be read. When its recomputed
  checksum differs from the expected one, \<open>validateChecksum\<close> returns the mismatch
  error, which carries the file name, the expected and the computed checksum, and the
  file is gone afterwards whenever the operating system carries out the removal (a
  removal it refuses is logged, and the error is the same). When the checksums are equal
  the result is nil and the world is left as it was.
\<close>

theorem validateChecksum_mismatch_removes_file:
  assumes "downloadablePath E d dir = Inr p"
    and "files w p = Some (File c m)"
    and "\<not> os_refuses E (OpenRead p) w"
  shows "(sha256_hex E c \<noteq> Checksum d \<longrightarrow>
            fst (validateChecksum E d dir w)
              = Some (ChecksumMismatch p (Checksum d) (sha256_hex E c))
            \<and> (\<not> os_refuses E (RemoveAll p) w \<longrightarrow>
                 \<not> fileExists (snd (validateChecksum E d dir w)) p))
         \<and> (sha256_hex E c = Checksum d \<longrightarrow> validateChecksum E d dir w = (None, w))"
  using assms
  by (auto simp: validateChecksum_def fileChecksum_File rm_result fileExists_def called_def)

theorem validateChecksum_mismatch_removes_file_witness:
  "downloadablePath example_env example_downloader ''/dl'' = Inr ''/dl/foo.tar.gz''
   \<and> files download_world ''/dl/foo.tar.gz'' = Some (File ''foo archive'' 420)
   \<and> validateChecksum example_env example_downloader ''/dl'' download_world
       = (None, download_world)
   \<and> fst (validateChecksum example_env (example_downloader\<lparr>Checksum := ''deadbeef''\<rparr>)
            ''/dl'' download_world)
       = Some (ChecksumMismatch ''/dl/foo.tar.gz'' ''deadbeef'' fooChecksum)
   \<and> \<not> fileExists (snd (validateChecksum example_env
            (example_downloader\<lparr>Checksum := ''deadbeef''\<rparr>) ''/dl'' download_world))
          ''/dl/foo.tar.gz''"
proof -
  let ?bad = "example_downloader\<lparr>Checksum := ''deadbeef''\<rparr>"
  have path: "downloadablePath example_env example_downloader ''/dl'' = Inr ''/dl/foo.tar.gz''"
    by code_simp
  have path': "downloadablePath example_env ?bad ''/dl'' = Inr ''/dl/foo.tar.gz''"
    by code_simp
  have there: "files download_world ''/dl/foo.tar.gz'' = Some (File ''foo archive'' 420)"
    by (simp add: download_world_def)
  have readable: "\<not> os_refuses example_env (OpenRead ''/dl/foo.tar.gz'') download_world"
    and removable: "\<not> os_refuses example_env (RemoveAll ''/dl/foo.tar.gz'') download_world"
    by simp_all
  have digest: "sha256_hex example_env ''foo archive'' = fooChecksum"
    by (simp add: example_env_def)
  have good: "Checksum example_downloader = fooChecksum"
    and bad: "Checksum ?bad = ''deadbeef''" "fooChecksum \<noteq> ''deadbeef''"
    by (simp_all add: example_downloader_def fooChecksum_def)
  from validateChecksum_mismatch_removes_file [OF path there readable] digest good
  have ok: "validateChecksum example_env example_downloader ''/dl'' download_world
       = (None, download_world)"
    by simp
  from validateChecksum_mismatch_removes_file [OF path' there readable] digest bad removable
  have "fst (validateChecksum example_env ?bad ''/dl'' download_world)
       = Some (ChecksumMismatch ''/dl/foo.tar.gz'' ''deadbeef'' fooChecksum)
     \<and> \<not> fileExists (snd (validateChecksum example_env ?bad ''/dl'' download_world))
          ''/dl/foo.tar.gz''"
    by simp
  with path there ok show ?thesis by simp
qed

section \<open>Properties of download\<close>

lemma fileExistsWithChecksum_None:
  "files w p = None \<Longrightarrow> fileExistsWithChecksum E w p cs = Inr False"
  by (simp add: fileExistsWithChecksum_def fileExists_def)

lemma fileExistsWithChecksum_File:
  "files w p = Some (File c m) \<Longrightarrow> \<not> os_refuses E (OpenRead p) w \<Longrightarrow>
     fileExistsWithChecksum E w p cs = Inr (cs = sha256_hex E c)"
  by (simp add: fileExistsWithChecksum_def fileExists_def fileChecksum_File)

lemma follow_lands:
  "follow n fs p = Some q \<Longrightarrow> \<forall>t. fs q \<noteq> Some (Link t)"
  by (induction n fs p rule: follow.induct) (auto split: option.splits node.splits)

lemma follow_update:
  "follow n fs p = Some q \<Longrightarrow> follow n (fs(q \<mapsto> File b m)) p = Some q"
proof (induction n fs p rule: follow.induct)
  case (1 fs p)
  then show ?case by simp
next
  case (2 n fs p)
  show ?case
  proof (cases "\<exists>t. fs p = Some (Link t)")
    case True
    then obtain t where t: "fs p = Some (Link t)" by blast
    with "2.prems" follow_lands [OF "2.prems"] have "p \<noteq> q" by auto
    with t "2.prems" "2.IH" [OF t] show ?thesis by simp
  next
    case False
    with "2.prems" have "q = p" by (auto split: option.splits node.splits)
    then show ?thesis by simp
  qed
qed

lemma os_ReadFile_Inr:
  assumes "os_ReadFile E w p = Inr c"
  shows "\<exists>q m. referent w p = Some q \<and> files w q = Some (File c m)"
  using assms
  by (auto simp: os_ReadFile_def os_Stat_def split: if_splits option.splits node.splits)

lemma os_ReadFile_absent:
  assumes "os_ReadFile E w p = Inr c"
  shows "files w p \<noteq> None"
proof
  assume "files w p = None"
  then have "os_ReadFile E w p = Inl (OsError (OpenRead p))" by (rule os_ReadFile_None)
  with assms show False by simp
qed

lemma downloadFile_writes:
  assumes get: "http_Get E url = Inr resp" and ok: "StatusCode resp < 300"
    and whole: "BodyError resp = None"
    and willing: "\<forall>c v. (\<exists>q. c = Create q \<or> c = WriteTo q) \<longrightarrow> \<not> os_refuses E c v"
    and target: "referent w p = Some q"
    and room: "files w q = None \<or> (\<exists>c m. files w q = Some (File c m))"
  shows "fst (downloadFile E p url w) = None
     \<and> (\<exists>m. os_Stat (snd (downloadFile E p url w)) p = Some (File (Body resp) m))"
proof -
  let ?w1 = "called (HttpGet url) w"
  from target have t1: "referent ?w1 p = Some q"
    by (simp add: referent_def called_def)
  from room have r1: "files ?w1 q = None \<or> (\<exists>c m. files ?w1 q = Some (File c m))"
    by (simp add: called_def)
  from willing have c1: "\<not> os_refuses E (Create p) ?w1" by blast
  from r1 obtain m where
    cr: "os_Create E p ?w1 = (Inr q, (called (Create p) ?w1)\<lparr>files := (files ?w1)(q \<mapsto> File [] m)\<rparr>)"
    using t1 c1 by (auto simp: os_Create_def Let_def)
  let ?w2 = "(called (Create p) ?w1)\<lparr>files := (files ?w1)(q \<mapsto> File [] m)\<rparr>"
  from willing have c2: "\<not> os_refuses E (WriteTo q) ?w2" by blast
  let ?w3 = "(called (WriteTo q) ?w2)\<lparr>files := (files ?w2)(q \<mapsto> File (Body resp) m)\<rparr>"
  from c2 have wr: "os_Write E q (Body resp) ?w2 = (None, ?w3)"
    by (simp add: os_Write_def Let_def)
  with whole have "io_Copy E q resp ?w2 = (None, ?w3)"
    by (simp add: io_Copy_def)
  with get ok cr have run: "downloadFile E p url w = (None, ?w3)"
    by (simp add: downloadFile_def Let_def)
  have files3: "files ?w3 = (files w)(q \<mapsto> File (Body resp) m)"
    by (simp add: called_def)
  from target have "follow 40 (files w) p = Some q"
    by (simp add: referent_def)
  then have "follow 40 (files ?w3) p = Some q"
    unfolding files3 by (rule follow_update)
  then have "referent ?w3 p = Some q"
    by (simp only: referent_def)
  moreover from files3 have "files ?w3 q = Some (File (Body resp) m)"
    by simp
  ultimately have "os_Stat ?w3 p = Some (File (Body resp) m)"
    by (simp only: os_Stat_def option.case)
  with run show ?thesis by auto
qed

text \<open>
  C5, as the claim states it, fails: there are cases in which \<open>download\<close> neither finds
  a download with the right checksum nor fetches. A URL without a path has the base name
  \<open>.\<close>, so that the download path is the download directory itself; \<open>download\<close> makes
  the directory, finds that something exists at the download path, fails to read it, and
  returns that error: no GET is made. The same happens when a directory is in the way
  at the download path.
\<close>

theorem download_directory_counterexample:
  "downloadablePath example_env pathless_downloader ''/dl'' = Inr ''/dl''
   \<and> fst (download example_env pathless_downloader ''/dl'' empty_world)
       = Some (OsError (OpenRead ''/dl''))
   \<and> trace (snd (download example_env pathless_downloader ''/dl'' empty_world)) = [Mkdir ''/dl'']
   \<and> files (snd (download example_env pathless_downloader ''/dl'' empty_world)) ''/dl'' = Some Dir
   \<and> downloadablePath example_env example_downloader ''/dl'' = Inr ''/dl/foo.tar.gz''
   \<and> files blocked_world ''/dl/foo.tar.gz'' = Some Dir
   \<and> fst (download example_env example_downloader ''/dl'' blocked_world)
       = Some (OsError (OpenRead ''/dl/foo.tar.gz''))
   \<and> trace (snd (download example_env example_downloader ''/dl'' blocked_world)) = []"
  by code_simp

text \<open>
  C5, amended. \<open>download\<close> returns the error of a URL that does not parse, and the
  error of a download directory that cannot be made. Otherwise, with the directory made:
  it returns nil in the world the \<open>MkdirAll\<close> left, with no further call, exactly when
  the download path can be read and the bytes read have the checksum of the Downloader;
  when nothing is at the download path, or bytes are read there that have another
  checksum, it is \<open>downloadFile\<close> of the URL to that path, whose first call is the GET,
  and when the GET answers with a status below 300 and a body that is read to its end,
  and the operating system refuses neither the creation of the file nor the writing,
  it returns nil and the download path leads to a file that holds the body;
  when something is at the download path that cannot be read (a directory, a file that
  may not be opened), it returns the error of the reading and fetches nothing.
\<close>

theorem download_skips_fetches_or_fails:
  "(\<forall>err. downloadablePath E d dir = Inl err \<longrightarrow> download E d dir w = (Some err, w))
   \<and> (\<forall>p err w1. downloadablePath E d dir = Inr p \<and> os_MkdirAll E dir w = (Some err, w1) \<longrightarrow>
         download E d dir w = (Some err, w1))
   \<and> (\<forall>p w1. downloadablePath E d dir = Inr p \<and> os_MkdirAll E dir w = (None, w1) \<longrightarrow>
         (download E d dir w = (None, w1)
            \<longleftrightarrow> (\<exists>c. os_ReadFile E w1 p = Inr c \<and> sha256_hex E c = Checksum d))
       \<and> (\<exists>cs. trace w1 = trace w @ cs \<and> (\<forall>c \<in> set cs. \<exists>q. c = Mkdir q))
       \<and> (files w1 p = None
            \<or> (\<exists>c. os_ReadFile E w1 p = Inr c \<and> sha256_hex E c \<noteq> Checksum d) \<longrightarrow>
             download E d dir w = downloadFile E p (URL d) w1
             \<and> (\<exists>rest. trace (snd (download E d dir w)) = trace w1 @ HttpGet (URL d) # rest)
             \<and> (\<forall>resp. http_Get E (URL d) = Inr resp \<and> StatusCode resp < 300
                    \<and> BodyError resp = None
                    \<and> (\<forall>c v. (\<exists>q. c = Create q \<or> c = WriteTo q) \<longrightarrow> \<not> os_refuses E c v) \<longrightarrow>
                  fst (download E d dir w) = None
                  \<and> (\<exists>m. os_Stat (snd (download E d dir w)) p = Some (File (Body resp) m))))
       \<and> (\<forall>err. files w1 p \<noteq> None \<and> os_ReadFile E w1 p = Inl err \<longrightarrow>
             download E d dir w = (Some err, w1)))"
proof (intro conjI allI impI; (elim conjE)?)
  fix err assume "downloadablePath E d dir = Inl err"
  then show "download E d dir w = (Some err, w)"
    by (simp add: download_def)
next
  fix p err w1
  assume "downloadablePath E d dir = Inr p" and "os_MkdirAll E dir w = (Some err, w1)"
  then show "download E d dir w = (Some err, w1)"
    by (simp add: download_def)
next
  fix p w1
  assume path: "downloadablePath E d dir = Inr p" and made: "os_MkdirAll E dir w = (None, w1)"
  from os_MkdirAll_trace [OF made]
  show "\<exists>cs. trace w1 = trace w @ cs \<and> (\<forall>c \<in> set cs. \<exists>q. c = Mkdir q)" .
  have fetch: "download E d dir w = downloadFile E p (URL d) w1"
    if "files w1 p = None \<or> (\<exists>c. os_ReadFile E w1 p = Inr c \<and> sha256_hex E c \<noteq> Checksum d)"
  proof -
    from that have "fileExistsWithChecksum E w1 p (Checksum d) = Inr False"
      by (auto simp: fileExistsWithChecksum_def fileChecksum_def fileExists_def)
    with path made show ?thesis by (simp add: download_def)
  qed
  have fails: "download E d dir w = (Some err, w1)"
    if "files w1 p \<noteq> None" and "os_ReadFile E w1 p = Inl err" for err
  proof -
    from that have "fileExistsWithChecksum E w1 p (Checksum d) = Inl err"
      by (simp add: fileExistsWithChecksum_def fileChecksum_def fileExists_def)
    with path made show ?thesis by (simp add: download_def)
  qed
  have skips: "download E d dir w = (None, w1)"
    if "os_ReadFile E w1 p = Inr c" and "sha256_hex E c = Checksum d" for c
  proof -
    from that os_ReadFile_absent [OF that(1)]
    have "fileExistsWithChecksum E w1 p (Checksum d) = Inr True"
      by (auto simp: fileExistsWithChecksum_def fileChecksum_def fileExists_def)
    with path made show ?thesis by (simp add: download_def)
  qed
  show "download E d dir w = (None, w1)
      \<longleftrightarrow> (\<exists>c. os_ReadFile E w1 p = Inr c \<and> sha256_hex E c = Checksum d)"
  proof
    assume skipped: "download E d dir w = (None, w1)"
    show "\<exists>c. os_ReadFile E w1 p = Inr c \<and> sha256_hex E c = Checksum d"
    proof (rule ccontr)
      assume no: "\<not> (\<exists>c. os_ReadFile E w1 p = Inr c \<and> sha256_hex E c = Checksum d)"
      show False
      proof (cases "files w1 p = None \<or> (\<exists>c. os_ReadFile E w1 p = Inr c)")
        case True
        with no have "files w1 p = None
            \<or> (\<exists>c. os_ReadFile E w1 p = Inr c \<and> sha256_hex E c \<noteq> Checksum d)"
          by blast
        from fetch [OF this] skipped have "downloadFile E p (URL d) w1 = (None, w1)"
          by simp
        with downloadFile_trace [of E p "URL d" w1] show False
          by simp
      next
        case False
        then obtain err where "files w1 p \<noteq> None" "os_ReadFile E w1 p = Inl err"
          by (cases "os_ReadFile E w1 p") auto
        from fails [OF this] skipped show False by simp
      qed
    qed
  next
    assume "\<exists>c. os_ReadFile E w1 p = Inr c \<and> sha256_hex E c = Checksum d"
    with skips show "download E d dir w = (None, w1)" by blast
  qed
  show "download E d dir w = (Some err, w1)"
    if "files w1 p \<noteq> None" and "os_ReadFile E w1 p = Inl err" for err
    using that by (rule fails)
  assume fresh: "files w1 p = None
      \<or> (\<exists>c. os_ReadFile E w1 p = Inr c \<and> sha256_hex E c \<noteq> Checksum d)"
  from fetch [OF fresh] show f: "download E d dir w = downloadFile E p (URL d) w1" .
  from downloadFile_trace [of E p "URL d" w1] f
  show "\<exists>rest. trace (snd (download E d dir w)) = trace w1 @ HttpGet (URL d) # rest"
    by simp
  fix resp
  assume get: "http_Get E (URL d) = Inr resp" and ok: "StatusCode resp < 300"
    and whole: "BodyError resp = None"
    and willing: "\<forall>c v. (\<exists>q. c = Create q \<or> c = WriteTo q) \<longrightarrow> \<not> os_refuses E c v"
  from fresh obtain q where target: "referent w1 p = Some q"
    and room: "files w1 q = None \<or> (\<exists>c m. files w1 q = Some (File c m))"
  proof
    assume "files w1 p = None"
    then have "referent w1 p = Some p" "files w1 p = None"
      by (simp_all add: referent_not_link)
    with that show thesis by blast
  next
    assume "\<exists>c. os_ReadFile E w1 p = Inr c \<and> sha256_hex E c \<noteq> Checksum d"
    then obtain c where "os_ReadFile E w1 p = Inr c" by blast
    from os_ReadFile_Inr [OF this] that show thesis by blast
  qed
  note eff = downloadFile_writes [OF get ok whole willing target room]
  from eff f show "fst (download E d dir w) = None" by simp
  from eff f show "\<exists>m. os_Stat (snd (download E d dir w)) p = Some (File (Body resp) m)"
    by simp
qed


theorem download_skips_fetches_or_fails_witness:
  "download example_env example_downloader ''/dl'' download_world = (None, download_world)
   \<and> fst (download example_env example_downloader ''/dl'' stale_world) = None
   \<and> (\<exists>m. os_Stat (snd (download example_env example_downloader ''/dl'' stale_world))
            ''/dl/foo.tar.gz'' = Some (File ''foo archive'' m))
   \<and> fst (download example_env example_downloader ''/dl'' empty_world) = None
   \<and> (\<exists>m. os_Stat (snd (download example_env example_downloader ''/dl'' empty_world))
            ''/dl/foo.tar.gz'' = Some (File ''foo archive'' m))
   \<and> download example_env example_downloader ''/dl'' blocked_world
       = (Some (OsError (OpenRead ''/dl/foo.tar.gz'')), blocked_world)
   \<and> download example_env schemeless_downloader ''/dl'' empty_world
       = (Some (UrlError '':foo.tar.gz'' (LibError ''missing protocol scheme'')), empty_world)
   \<and> download example_env example_downloader ''/t/foo.txt'' installed_world
       = (Some (OsError (Mkdir ''/t/foo.txt'')), installed_world)"
proof -
  let ?E = example_env and ?d = example_downloader and ?p = "''/dl/foo.tar.gz''"
  let ?resp = "\<lparr>StatusCode = 200, Body = ''foo archive'', BodyError = None\<rparr>"
  have path: "downloadablePath ?E ?d ''/dl'' = Inr ?p"
    by code_simp
  have get: "http_Get ?E (URL ?d) = Inr ?resp \<and> StatusCode ?resp < 300
      \<and> BodyError ?resp = None
      \<and> (\<forall>c v. (\<exists>q. c = Create q \<or> c = WriteTo q) \<longrightarrow> \<not> os_refuses ?E c v)"
    by (simp add: example_env_def)
  have made: "os_MkdirAll ?E ''/dl'' w = (None, w)" if "files w ''/dl'' = Some Dir" for w
  proof -
    from that have "os_Stat w ''/dl'' = Some Dir"
      by (simp add: os_Stat_not_link)
    then show ?thesis by (simp add: os_MkdirAll.simps)
  qed
  note cases = download_skips_fetches_or_fails [THEN conjunct2, THEN conjunct2,
      THEN spec, THEN spec, THEN mp, OF conjI]
  have made1: "os_MkdirAll ?E ''/dl'' download_world = (None, download_world)"
    by (rule made) (simp add: download_world_def)
  have "\<exists>c. os_ReadFile ?E download_world ?p = Inr c \<and> sha256_hex ?E c = Checksum ?d"
    by (rule exI [of _ "''foo archive''"]) code_simp
  with cases [OF path made1, THEN conjunct1]
  have skip: "download ?E ?d ''/dl'' download_world = (None, download_world)"
    by (rule iffD2)
  have made2: "os_MkdirAll ?E ''/dl'' stale_world = (None, stale_world)"
    by (rule made) (simp add: stale_world_def)
  have "os_ReadFile ?E stale_world ?p = Inr ''old bytes''
      \<and> sha256_hex ?E ''old bytes'' \<noteq> Checksum ?d"
    by code_simp
  then have "files stale_world ?p = None
      \<or> (\<exists>c. os_ReadFile ?E stale_world ?p = Inr c \<and> sha256_hex ?E c \<noteq> Checksum ?d)"
    by blast
  with cases [OF path made2, THEN conjunct2, THEN conjunct2, THEN conjunct1]
  have "\<forall>resp. http_Get ?E (URL ?d) = Inr resp \<and> StatusCode resp < 300
        \<and> BodyError resp = None
        \<and> (\<forall>c v. (\<exists>q. c = Create q \<or> c = WriteTo q) \<longrightarrow> \<not> os_refuses ?E c v) \<longrightarrow>
      fst (download ?E ?d ''/dl'' stale_world) = None
      \<and> (\<exists>m. os_Stat (snd (download ?E ?d ''/dl'' stale_world)) ?p
             = Some (File (Body resp) m))"
    by blast
  from this [THEN spec, THEN mp, OF get]
  have stale: "fst (download ?E ?d ''/dl'' stale_world) = None
      \<and> (\<exists>m. os_Stat (snd (download ?E ?d ''/dl'' stale_world)) ?p
             = Some (File ''foo archive'' m))"
    by simp
  let ?w1 = "snd (os_MkdirAll ?E ''/dl'' empty_world)"
  have "fst (os_MkdirAll ?E ''/dl'' empty_world) = None"
    by code_simp
  then have made3: "os_MkdirAll ?E ''/dl'' empty_world = (None, ?w1)"
    by (simp add: prod_eq_iff)
  have "files ?w1 ?p = None"
    by code_simp
  then have "files ?w1 ?p = None
      \<or> (\<exists>c. os_ReadFile ?E ?w1 ?p = Inr c \<and> sha256_hex ?E c \<noteq> Checksum ?d)"
    by blast
  with cases [OF path made3, THEN conjunct2, THEN conjunct2, THEN conjunct1]
  have "\<forall>resp. http_Get ?E (URL ?d) = Inr resp \<and> StatusCode resp < 300
        \<and> BodyError resp = None
        \<and> (\<forall>c v. (\<exists>q. c = Create q \<or> c = WriteTo q) \<longrightarrow> \<not> os_refuses ?E c v) \<longrightarrow>
      fst (download ?E ?d ''/dl'' empty_world) = None
      \<and> (\<exists>m. os_Stat (snd (download ?E ?d ''/dl'' empty_world)) ?p
             = Some (File (Body resp) m))"
    by blast
  from this [THEN spec, THEN mp, OF get]
  have fresh: "fst (download ?E ?d ''/dl'' empty_world) = None
      \<and> (\<exists>m. os_Stat (snd (download ?E ?d ''/dl'' empty_world)) ?p
             = Some (File ''foo archive'' m))"
    by simp
  have made4: "os_MkdirAll ?E ''/dl'' blocked_world = (None, blocked_world)"
    by (rule made) (simp add: blocked_world_def)
  have "files blocked_world ?p \<noteq> None
      \<and> os_ReadFile ?E blocked_world ?p = Inl (OsError (OpenRead ?p))"
    by code_simp
  with cases [OF path made4, THEN conjunct2, THEN conjunct2, THEN conjunct2, THEN spec]
  have blocked: "download ?E ?d ''/dl'' blocked_world
      = (Some (OsError (OpenRead ?p)), blocked_world)"
    by (rule mp)
  have "downloadablePath ?E schemeless_downloader ''/dl''
      = Inl (UrlError '':foo.tar.gz'' (LibError ''missing protocol scheme''))"
    by code_simp
  with download_skips_fetches_or_fails [THEN conjunct1, THEN spec]
  have unparsed: "download ?E schemeless_downloader ''/dl'' empty_world
      = (Some (UrlError '':foo.tar.gz'' (LibError ''missing protocol scheme'')), empty_world)"
    by (rule mp)
  have path': "downloadablePath ?E ?d ''/t/foo.txt'' = Inr ''/t/foo.txt/foo.tar.gz''"
    by code_simp
  have "os_Stat installed_world ''/t/foo.txt'' = Some (File ''hello'' 493)"
    by (simp add: os_Stat_not_link installed_world_def)
  then have "os_MkdirAll ?E ''/t/foo.txt'' installed_world
      = (Some (OsError (Mkdir ''/t/foo.txt'')), installed_world)"
    by (simp add: os_MkdirAll.simps)
  with path' have "downloadablePath ?E ?d ''/t/foo.txt'' = Inr ''/t/foo.txt/foo.tar.gz''
      \<and> os_MkdirAll ?E ''/t/foo.txt'' installed_world
        = (Some (OsError (Mkdir ''/t/foo.txt'')), installed_world)"
    by (rule conjI)
  with download_skips_fetches_or_fails [THEN conjunct2, THEN conjunct1,
      THEN spec, THEN spec, THEN spec]
  have unmade: "download ?E ?d ''/t/foo.txt'' installed_world
      = (Some (OsError (Mkdir ''/t/foo.txt'')), installed_world)"
    by (rule mp)
  from skip stale fresh blocked unparsed unmade show ?thesis
    by blast
qed

section \<open>Properties of Install\<close>

text \<open>
  C1. When something is at the destination path \<open>targetDir/BinName\<close> and \<open>Force\<close> is
  false, \<open>Install\<close> returns nil and the world is the one it started in: the store is
  unchanged and the trace has no new call, so nothing was fetched, verified, extracted,
  placed or made executable. A second call, in the world the first one left, returns the
  same.
\<close>

theorem Install_short_circuit:
  "fileExists w (binPath d (TargetDir opts)) \<Longrightarrow> \<not> Force opts \<Longrightarrow>
     Install E d opts w = (None, w)
     \<and> Install E d opts (snd (Install E d opts w)) = Install E d opts w"
  by (simp add: Install_def Let_def)

theorem Install_short_circuit_witness:
  "fileExists installed_world (binPath example_downloader (TargetDir example_opts))
   \<and> \<not> Force example_opts
   \<and> Install example_env example_downloader example_opts installed_world
     = (None, installed_world)"
proof -
  have bin: "binPath example_downloader (TargetDir example_opts) = ''/t/foo.txt''"
    by (simp add: binPath_def example_downloader_def example_opts_def
        filepath_Join_def filepath_Clean_def)
  have there: "fileExists installed_world (binPath example_downloader (TargetDir example_opts))"
    by (simp add: bin fileExists_def installed_world_def)
  have gentle: "\<not> Force example_opts"
    by (simp add: example_opts_def)
  from Install_short_circuit [OF there gentle, of example_env] there gentle
  show ?thesis by simp
qed


lemma Install_stages:
  "Install E d opts w =
     (if fileExists w (binPath d (TargetDir opts)) \<and> \<not> Force opts then (None, w)
      else (case download E d (effectiveDownloadDir d opts) w of
              (Some err, w1) \<Rightarrow> (Some err, w1)
            | (None, w1) \<Rightarrow>
                (case validateChecksum E d (effectiveDownloadDir d opts) w1 of
                   (Some err, w2) \<Rightarrow> (Some err, w2)
                 | (None, w2) \<Rightarrow>
                     (case extract E d (effectiveDownloadDir d opts) (effectiveExtractDir d opts) w2 of
                        (Some err, w3) \<Rightarrow> (Some err, w3)
                      | (None, w3) \<Rightarrow>
                          (case link E d (TargetDir opts) (effectiveExtractDir d opts) w3 of
                             (Some err, w4) \<Rightarrow> (Some err, w4)
                           | (None, w4) \<Rightarrow>
                               (case move E d (TargetDir opts) (effectiveExtractDir d opts) w4 of
                                  (Some err, w5) \<Rightarrow> (Some err, w5)
                                | (None, w5) \<Rightarrow> chmod E d (TargetDir opts) w5))))))"
  by (auto simp: Install_def Let_def effectiveDownloadDir_def effectiveExtractDir_def
      split: prod.splits option.splits)

lemma Install_validate_fails:
  assumes "\<not> (fileExists w (binPath d (TargetDir opts)) \<and> \<not> Force opts)"
    and "download E d (effectiveDownloadDir d opts) w = (None, w1)"
    and "validateChecksum E d (effectiveDownloadDir d opts) w1 = (Some err, w2)"
  shows "Install E d opts w = (Some err, w2)"
  using assms by (simp add: Install_stages)

text \<open>
  C4, as the claim states it, fails: \<open>InstallOpts\<close> has no option that allows a missing
  checksum and there is no error for one. An install of a Downloader without a checksum
  into an empty world downloads the file and then fails with the mismatch error, whose
  expected checksum is the empty string.
\<close>

theorem Install_empty_checksum_counterexample:
  "fst (Install example_env (example_downloader\<lparr>Checksum := []\<rparr>) example_opts empty_world)
     = Some (ChecksumMismatch ''/t/.bindownloader/downloads/foo.tar.gz'' [] fooChecksum)"
  by code_simp

text \<open>
  C4, amended. When the Downloader carries no checksum, the verify stage of \<open>Install\<close>
  still runs and compares the recomputed checksum with the empty string as with any
  other expected value: after a download that left a readable regular file, whose
  checksum is not the empty string, \<open>Install\<close> fails with the mismatch error that
  reports the empty expected and the computed checksum, and the downloaded file is gone
  whenever the operating system carries out the removal.
\<close>

theorem Install_empty_checksum_is_mismatch:
  assumes empty: "Checksum d = []"
    and run: "\<not> (fileExists w (binPath d (TargetDir opts)) \<and> \<not> Force opts)"
    and got: "download E d (effectiveDownloadDir d opts) w = (None, w1)"
    and path: "downloadablePath E d (effectiveDownloadDir d opts) = Inr p"
    and there: "files w1 p = Some (File c m)"
    and readable: "\<not> os_refuses E (OpenRead p) w1"
    and digest: "sha256_hex E c \<noteq> []"
  shows "fst (Install E d opts w) = Some (ChecksumMismatch p [] (sha256_hex E c))
       \<and> (\<not> os_refuses E (RemoveAll p) w1 \<longrightarrow> \<not> fileExists (snd (Install E d opts w)) p)"
proof -
  obtain w2 where v: "validateChecksum E d (effectiveDownloadDir d opts) w1
      = (Some (ChecksumMismatch p [] (sha256_hex E c)), w2)"
    using path there readable digest empty
    by (cases "validateChecksum E d (effectiveDownloadDir d opts) w1")
       (auto simp: validateChecksum_def fileChecksum_File split: prod.splits)
  from digest empty have "sha256_hex E c \<noteq> Checksum d"
    by simp
  from validateChecksum_rejects [OF path there readable this] v
  have gone: "\<not> os_refuses E (RemoveAll p) w1 \<longrightarrow> \<not> fileExists w2 p"
    by auto
  from Install_validate_fails [OF run got v] gone show ?thesis
    by simp
qed

theorem Install_empty_checksum_is_mismatch_witness:
  "Checksum (example_downloader\<lparr>Checksum := []\<rparr>) = []
   \<and> fst (download example_env (example_downloader\<lparr>Checksum := []\<rparr>)
           ''/t/.bindownloader/downloads'' empty_world) = None
   \<and> fst (Install example_env (example_downloader\<lparr>Checksum := []\<rparr>) example_opts empty_world)
       = Some (ChecksumMismatch ''/t/.bindownloader/downloads/foo.tar.gz'' [] fooChecksum)
   \<and> \<not> fileExists
         (snd (Install example_env (example_downloader\<lparr>Checksum := []\<rparr>) example_opts empty_world))
         ''/t/.bindownloader/downloads/foo.tar.gz''"
proof -
  let ?d = "example_downloader\<lparr>Checksum := []\<rparr>"
  let ?dd = "''/t/.bindownloader/downloads''"
  let ?p = "''/t/.bindownloader/downloads/foo.tar.gz''"
  let ?w1 = "snd (download example_env ?d ?dd empty_world)"
  have empty: "Checksum ?d = []"
    by simp
  have dd: "effectiveDownloadDir ?d example_opts = ?dd"
    by code_simp
  have run: "\<not> (fileExists empty_world (binPath ?d (TargetDir example_opts))
      \<and> \<not> Force example_opts)"
    by (simp add: fileExists_def empty_world_def)
  have ok: "fst (download example_env ?d ?dd empty_world) = None"
    by code_simp
  then have got: "download example_env ?d (effectiveDownloadDir ?d example_opts) empty_world
      = (None, ?w1)"
    by (simp add: dd prod_eq_iff)
  have path: "downloadablePath example_env ?d (effectiveDownloadDir ?d example_opts) = Inr ?p"
    by code_simp
  have there: "files ?w1 ?p = Some (File ''foo archive'' 438)"
    by code_simp
  have digest: "sha256_hex example_env ''foo archive'' = fooChecksum" "fooChecksum \<noteq> []"
    by (simp_all add: example_env_def fooChecksum_def)
  from Install_empty_checksum_is_mismatch [OF empty run got path there]
    digest ok empty
  show ?thesis by simp
qed

section \<open>Properties of extract\<close>

text \<open>
  C3. The code does not do what the claim says. For a download whose name the archiver
  does not recognize, here \<open>foo\<close>, \<open>extract\<close> copies the raw file to the extract
  directory and then calls \<open>Unarchive\<close> on it all the same; \<open>Unarchive\<close> fails on the
  unrecognized name, and \<open>extract\<close> returns that error.
\<close>

theorem extract_unrecognized_still_unarchives:
  "fst (extract example_env (example_downloader\<lparr>URL := ''http://example.com/foo''\<rparr>)
          ''/dl'' ''/ex'' raw_world)
     = Some (ArchiveError ''/dl/foo'')
   \<and> files (snd (extract example_env (example_downloader\<lparr>URL := ''http://example.com/foo''\<rparr>)
          ''/dl'' ''/ex'' raw_world)) ''/ex/foo''
     = Some (File ''foo archive'' 438)
   \<and> trace (snd (extract example_env (example_downloader\<lparr>URL := ''http://example.com/foo''\<rparr>)
          ''/dl'' ''/ex'' raw_world))
     = [Mkdir ''/ex'', Create ''/ex/foo'', WriteTo ''/ex/foo'', Unarchive ''/dl/foo'' ''/ex'']"
  by code_simp

text \<open>
  On the path that copies the raw file \<open>extract\<close> never succeeds, whatever the
  environment: the name that \<open>ByExtension\<close> did not recognize is the name \<open>Unarchive\<close>
  looks the format up by.
\<close>

lemma archiver_Unarchive_unrecognized:
  "\<not> recognized E source \<Longrightarrow> fst (archiver_Unarchive E source dest w) = Some (ArchiveError source)"
  by (simp add: archiver_Unarchive_def archiver_ByExtension_def Let_def)

lemma archiver_Unarchive_unrecognized_fails:
  "\<not> recognized E source \<Longrightarrow> archiver_Unarchive E source dest w \<noteq> (None, w')"
  using archiver_Unarchive_unrecognized [of E source dest w] by auto

lemma extract_unrecognized_fails:
  assumes "downloadableName E d = Inr dlName"
    and "\<not> recognized E dlName"
    and "\<not> recognized E (filepath_Join [downloadDir, dlName])"
  shows "fst (extract E d downloadDir extractDir w) \<noteq> None"
  using assms
  by (auto simp: extract_def Let_def archiver_ByExtension_def
        archiver_Unarchive_unrecognized_fails split: prod.splits option.splits)

section \<open>Properties of the placement\<close>

lemma link_creates_symlink:
  assumes "LinkSource d \<noteq> []"
    and "bin = binPath d targetDir"
    and "src = filepath_Join [extractDir, filepath_FromSlash (LinkSource d)]"
    and "\<forall>v. \<not> os_refuses E (RemoveAll bin) v"
    and "\<forall>v. \<not> os_refuses E (Symlink src bin) v"
  shows "\<exists>w1. link E d targetDir extractDir w = (None, w1)
           \<and> files w1 bin = Some (Link src)
           \<and> (\<forall>q. \<not> within bin q \<longrightarrow> files w1 q = files w q)
           \<and> trace w1 = trace w @ (if fileExists w bin then [RemoveAll bin] else [])
                          @ [Symlink src bin]"
  using assms
  by (auto simp: link_def rm_result os_Symlink_def Let_def called_def fileExists_def)

lemma move_renames:
  assumes "MoveFrom d \<noteq> []"
    and "bin = binPath d targetDir"
    and "from = filepath_Join [extractDir, filepath_FromSlash (MoveFrom d)]"
    and "files w from = Some n"
    and "\<not> within bin from"
    and "\<forall>v. \<not> os_refuses E (RemoveAll bin) v"
    and "\<forall>v. \<not> os_refuses E (Rename from bin) v"
  shows "\<exists>w1. move E d targetDir extractDir w = (None, w1)
           \<and> files w1 bin = Some n \<and> files w1 from = None
           \<and> trace w1 = trace w @ [RemoveAll bin, Rename from bin]"
  using assms
  by (auto simp: move_def rm_result os_Rename_def Let_def called_def)

lemma chmod_sets_mode:
  assumes "bin = binPath d targetDir"
    and "files w bin = Some (File c m)"
    and "\<forall>v. \<not> os_refuses E (Chmod bin 493) v"
  shows "\<exists>w1. chmod E d targetDir w = (None, w1)
           \<and> files w1 bin = Some (File c 493)
           \<and> trace w1 = trace w @ [Chmod bin 493]"
  using assms
  by (auto simp: chmod_def os_Chmod_def Let_def called_def referent_not_link)

text \<open>
  C10. Let both \<open>LinkSource\<close> and \<open>MoveFrom\<close> be set, let the first three stages of
  \<open>Install\<close> succeed and leave a regular file at the \<open>MoveFrom\<close> path of the extract
  directory, which is not at or below the destination, and let the operating system
  refuse none of the calls of the placement. Then \<open>link\<close> runs first and leaves a
  symbolic link at the destination; \<open>move\<close> runs next, removes it and renames the
  extracted file onto the destination; \<open>Install\<close> returns nil, the destination is that
  regular file with mode 0755, and the calls after the extraction are the removal of an
  old destination if there was one, \<open>Symlink\<close>, \<open>RemoveAll\<close>, \<open>Rename\<close> and \<open>Chmod\<close>,
  in this order. A strategy whose source field is empty returns nil and changes nothing.
\<close>

theorem Install_links_then_moves:
  assumes both: "LinkSource d \<noteq> []" "MoveFrom d \<noteq> []"
    and bin: "bin = binPath d (TargetDir opts)"
    and src: "src = filepath_Join [effectiveExtractDir d opts, filepath_FromSlash (LinkSource d)]"
    and "from": "from = filepath_Join [effectiveExtractDir d opts, filepath_FromSlash (MoveFrom d)]"
    and run: "\<not> (fileExists w bin \<and> \<not> Force opts)"
    and downloaded: "download E d (effectiveDownloadDir d opts) w = (None, w1)"
    and verified: "validateChecksum E d (effectiveDownloadDir d opts) w1 = (None, w2)"
    and extracted:
      "extract E d (effectiveDownloadDir d opts) (effectiveExtractDir d opts) w2 = (None, w3)"
    and there: "files w3 from = Some (File c m)"
    and apart: "\<not> within bin from"
    and willing: "\<forall>v. \<not> os_refuses E (RemoveAll bin) v"
      "\<forall>v. \<not> os_refuses E (Symlink src bin) v"
      "\<forall>v. \<not> os_refuses E (Rename from bin) v"
      "\<forall>v. \<not> os_refuses E (Chmod bin 493) v"
  shows "(\<exists>w4 w5 w6.
            link E d (TargetDir opts) (effectiveExtractDir d opts) w3 = (None, w4)
          \<and> files w4 bin = Some (Link src)
          \<and> move E d (TargetDir opts) (effectiveExtractDir d opts) w4 = (None, w5)
          \<and> files w5 bin = Some (File c m)
          \<and> Install E d opts w = (None, w6)
          \<and> files w6 bin = Some (File c 493)
          \<and> trace w6 = trace w3 @ (if fileExists w3 bin then [RemoveAll bin] else [])
                          @ [Symlink src bin, RemoveAll bin, Rename from bin, Chmod bin 493])
       \<and> (\<forall>d' t x v. (LinkSource d' = [] \<longrightarrow> link E d' t x v = (None, v))
                     \<and> (MoveFrom d' = [] \<longrightarrow> move E d' t x v = (None, v)))"
proof
  from link_creates_symlink [OF both(1) bin src willing(1,2), of w3]
  obtain w4 where w4: "link E d (TargetDir opts) (effectiveExtractDir d opts) w3 = (None, w4)"
    "files w4 bin = Some (Link src)"
    "\<forall>q. \<not> within bin q \<longrightarrow> files w4 q = files w3 q"
    "trace w4 = trace w3 @ (if fileExists w3 bin then [RemoveAll bin] else [])
                          @ [Symlink src bin]"
    by blast
  from w4(3) apart there have "files w4 from = Some (File c m)"
    by simp
  from move_renames [OF both(2) bin "from" this apart willing(1,3)]
  obtain w5 where w5: "move E d (TargetDir opts) (effectiveExtractDir d opts) w4 = (None, w5)"
    "files w5 bin = Some (File c m)"
    "trace w5 = trace w4 @ [RemoveAll bin, Rename from bin]"
    by blast
  from chmod_sets_mode [OF bin w5(2) willing(4)]
  obtain w6 where w6: "chmod E d (TargetDir opts) w5 = (None, w6)"
    "files w6 bin = Some (File c 493)"
    "trace w6 = trace w5 @ [Chmod bin 493]"
    by blast
  from run bin downloaded verified extracted w4(1) w5(1) w6(1)
  have "Install E d opts w = (None, w6)"
    by (auto simp add: Install_stages)
  moreover from w4(4) w5(3) w6(3)
  have "trace w6 = trace w3 @ (if fileExists w3 bin then [RemoveAll bin] else [])
                          @ [Symlink src bin, RemoveAll bin, Rename from bin, Chmod bin 493]"
    by simp
  ultimately show "\<exists>w4 w5 w6.
            link E d (TargetDir opts) (effectiveExtractDir d opts) w3 = (None, w4)
          \<and> files w4 bin = Some (Link src)
          \<and> move E d (TargetDir opts) (effectiveExtractDir d opts) w4 = (None, w5)
          \<and> files w5 bin = Some (File c m)
          \<and> Install E d opts w = (None, w6)
          \<and> files w6 bin = Some (File c 493)
          \<and> trace w6 = trace w3 @ (if fileExists w3 bin then [RemoveAll bin] else [])
                          @ [Symlink src bin, RemoveAll bin, Rename from bin, Chmod bin 493]"
    using w4(1,2) w5(1,2) w6(2) by blast
next
  show "\<forall>d' t x v. (LinkSource d' = [] \<longrightarrow> link E d' t x v = (None, v))
                     \<and> (MoveFrom d' = [] \<longrightarrow> move E d' t x v = (None, v))"
    by (simp add: link_def move_def)
qed

theorem Install_links_then_moves_witness:
  "LinkSource both_downloader \<noteq> [] \<and> MoveFrom both_downloader \<noteq> []
   \<and> fst (Install example_env both_downloader example_opts empty_world) = None
   \<and> files (snd (Install example_env both_downloader example_opts empty_world)) ''/t/foo.txt''
       = Some (File ''hello'' 493)
   \<and> link example_env example_downloader ''/t'' ''/ex'' empty_world = (None, empty_world)"
proof -
  let ?d = both_downloader
  let ?dd = "effectiveDownloadDir ?d example_opts"
  let ?xd = "effectiveExtractDir ?d example_opts"
  let ?w1 = "snd (download example_env ?d ?dd empty_world)"
  let ?w2 = "snd (validateChecksum example_env ?d ?dd ?w1)"
  let ?w3 = "snd (extract example_env ?d ?dd ?xd ?w2)"
  let ?from = "filepath_Join [?xd, filepath_FromSlash (MoveFrom ?d)]"
  let ?src = "filepath_Join [?xd, filepath_FromSlash (LinkSource ?d)]"
  have both: "LinkSource ?d \<noteq> []" "MoveFrom ?d \<noteq> []"
    by (simp_all add: both_downloader_def example_downloader_def)
  have bin: "''/t/foo.txt'' = binPath ?d (TargetDir example_opts)"
    by code_simp
  have run: "\<not> (fileExists empty_world ''/t/foo.txt'' \<and> \<not> Force example_opts)"
    by (simp add: fileExists_def empty_world_def)
  have "fst (download example_env ?d ?dd empty_world) = None"
    by code_simp
  then have downloaded: "download example_env ?d ?dd empty_world = (None, ?w1)"
    by (simp add: prod_eq_iff)
  have "fst (validateChecksum example_env ?d ?dd ?w1) = None"
    by code_simp
  then have verified: "validateChecksum example_env ?d ?dd ?w1 = (None, ?w2)"
    by (simp add: prod_eq_iff)
  have "fst (extract example_env ?d ?dd ?xd ?w2) = None"
    by code_simp
  then have extracted: "extract example_env ?d ?dd ?xd ?w2 = (None, ?w3)"
    by (simp add: prod_eq_iff)
  have there: "files ?w3 ?from = Some (File ''hello'' 420)"
    by code_simp
  have apart: "\<not> within ''/t/foo.txt'' ?from"
    by code_simp
  have empty: "LinkSource example_downloader = []"
    by (simp add: example_downloader_def)
  have willing: "\<forall>v. \<not> os_refuses example_env call v" for call
    by simp
  from Install_links_then_moves [OF both bin refl refl run downloaded verified extracted
      there apart willing willing willing willing] empty
  obtain w6 where "Install example_env ?d example_opts empty_world = (None, w6)"
    "files w6 ''/t/foo.txt'' = Some (File ''hello'' 493)"
    "link example_env example_downloader ''/t'' ''/ex'' empty_world = (None, empty_world)"
    by auto
  with both show ?thesis by simp
qed

section \<open>Failed installs\<close>








section \<open>What the stages before the placement touch\<close>
















lemma called_no_link [simp]: "no_link_at q (called c w) = no_link_at q w"
  by (simp add: no_link_at_def called_def)
















end
